theory Spec2Isabelle
  imports Main
begin

section \<open>The voice transcription page: data model\<close>

text \<open>
  The program is one class, \<^verbatim>\<open>VoiceTranscriptionApp\<close> (src/app.js). Its methods
  mutate the object's fields, the page (DOM elements looked up once in
  \<^verbatim>\<open>initializeElements\<close>) and the browser (local storage, timers, the
  microphone, the clipboard). All of that is one record that every method takes and
  returns.

  An \<^verbatim>\<open>async\<close> method runs until its first \<^verbatim>\<open>await\<close> and is resumed
  when the awaited promise settles; the model has one function for the part before
  the \<^verbatim>\<open>await\<close> and one (suffix \<open>_resume\<close>) for the part after it, which takes
  the settled promise. What has been awaited and not yet settled is the list
  \<open>pending\<close>; the calls made to external capabilities are logged in \<open>calls\<close>.
  Output to the console is not modelled.
\<close>

text \<open>
  Audio data is a list of bytes: the program only tests the size of a fragment and
  joins fragments into one \<^verbatim>\<open>Blob\<close>.
\<close>

type_synonym blob = "nat list"

datatype 'a promise = Fulfilled 'a | Rejected string

text \<open>The capability that \<^verbatim>\<open>pipeline\<close> resolves to, for a model identifier.\<close>

datatype capability = Pipeline string

record transcribe_options =
  language :: "string option"
  task :: string
  chunk_length_s :: nat
  stride_length_s :: nat
  return_timestamps :: bool

text \<open>
  A \<^verbatim>\<open>MediaRecorder\<close>: the stream it records, its \<^verbatim>\<open>state\<close>, and whether
  \<^verbatim>\<open>stop()\<close> has been called with the \<^verbatim>\<open>stop\<close> event still to be delivered.
  Recorders and streams live in stores (lists indexed by identity), because the
  \<^verbatim>\<open>onstop\<close> handler of a recorder keeps its own stream while the field
  \<^verbatim>\<open>this.mediaRecorder\<close> is overwritten by the next recording.
\<close>

datatype recorder_state = Inactive | Recording

record media_recorder =
  rec_stream :: nat
  rec_state :: recorder_state
  rec_stop_queued :: bool

datatype call =
    GetUserMedia
  | PipelineCall string string
  | Transcribe capability blob transcribe_options
  | WriteText string

text \<open>
  A suspended \<^verbatim>\<open>await\<close>, named by the method it is in, with the local variables
  the rest of the method reads. A suspended task is the list of these from the
  innermost call outwards. \<^verbatim>\<open>toggleRecording\<close> does nothing after its
  \<^verbatim>\<open>await\<close>, so it leaves no frame.
\<close>

datatype frame =
    In_initializeModel string
  | In_onModelChange
  | In_startRecording
  | In_processAudio
  | In_onstop nat
  | In_copyToClipboard

datatype completion = Returned | Threw string | Suspended "frame list"

datatype timeout_callback = AutoStop | RestoreCopyButton string

text \<open>
  The state. Of the object, its fields; the recorder in \<^verbatim>\<open>this.mediaRecorder\<close> is
  held by its index in \<open>recorders\<close>. Of the page, what the methods read and write
  of each element: its text, the classes \<^verbatim>\<open>recording\<close>, \<^verbatim>\<open>active\<close>,
  \<^verbatim>\<open>empty\<close> and \<^verbatim>\<open>copied\<close> as booleans, the value of each selector, the
  \<^verbatim>\<open>data-theme\<close> attribute of the document. Of the browser: the stored theme;
  the types a \<^verbatim>\<open>MediaRecorder\<close> can record; the time in milliseconds, which is
  \<^verbatim>\<open>Date.now()\<close>; the timeouts pending, each with the time it is due, and the
  intervals registered; every stream that \<^verbatim>\<open>getUserMedia\<close> has delivered,
  \<open>True\<close> while its tracks are live; every recorder created; the log of calls;
  the suspended tasks.
\<close>

record app =
  \<comment> \<open>fields of the object\<close>
  transcriber :: "capability option"
  mediaRecorder :: "nat option"
  audioChunks :: "blob list"
  isRecording :: bool
  isModelLoading :: bool
  startTime :: "nat option"
  timerInterval :: "nat option"
  \<comment> \<open>the page\<close>
  buttonText_textContent :: string
  recordButton_recording :: bool
  recordIcon_display :: string
  stopIcon_display :: string
  waveform_active :: bool
  timer_active :: bool
  timer_textContent :: string
  status_textContent :: string
  status_className :: string
  progressBar_active :: bool
  progressFill_width :: string
  transcriptionText_textContent :: string
  transcriptionText_empty :: bool
  copyButton_span :: string
  copyButton_copied :: bool
  modelSelect_value :: string
  languageSelect_value :: string
  errorDiv_textContent :: string
  errorDiv_active :: bool
  data_theme :: "string option"
  sunIcon_display :: string
  moonIcon_display :: string
  \<comment> \<open>the browser\<close>
  localStorage_theme :: "string option"
  supported_mimeTypes :: "string list"
  clock :: nat
  timer_ids :: nat
  timeouts :: "(nat \<times> timeout_callback) list"
  intervals :: "nat list"
  streams :: "bool list"
  recorders :: "media_recorder list"
  calls :: "call list"
  pending :: "frame list list"

subsection \<open>Numbers in template strings\<close>

definition digit :: "nat \<Rightarrow> char" where
  "digit n = ''0123456789'' ! (n mod 10)"

fun toString :: "nat \<Rightarrow> string" where
  "toString n = (if n < 10 then [digit n] else toString (n div 10) @ [digit n])"

definition toString_int :: "int \<Rightarrow> string" where
  "toString_int i = (if i < 0 then CHR ''-'' # toString (nat (- i)) else toString (nat i))"

definition padStart :: "nat \<Rightarrow> char \<Rightarrow> string \<Rightarrow> string" where
  "padStart n c s = replicate (n - length s) c @ s"

text \<open>The remainder operator of JavaScript takes the sign of the dividend.\<close>

definition js_rem :: "int \<Rightarrow> int \<Rightarrow> int" where
  "js_rem a b = (if a < 0 then - ((- a) mod \<bar>b\<bar>) else a mod \<bar>b\<bar>)"

subsection \<open>Status, progress and error display\<close>

definition updateStatus :: "string \<Rightarrow> string \<Rightarrow> app \<Rightarrow> app" where
  "updateStatus message type s =
     s\<lparr>status_textContent := message, status_className := ''status '' @ type\<rparr>"

definition showProgress :: "nat \<Rightarrow> app \<Rightarrow> app" where
  "showProgress percent s =
     s\<lparr>progressBar_active := True, progressFill_width := toString percent @ ''%''\<rparr>"

definition hideProgress :: "app \<Rightarrow> app" where
  "hideProgress s = s\<lparr>progressBar_active := False\<rparr>"

definition showError :: "string \<Rightarrow> app \<Rightarrow> app" where
  "showError message s = s\<lparr>errorDiv_textContent := message, errorDiv_active := True\<rparr>"

definition hideError :: "app \<Rightarrow> app" where
  "hideError s = s\<lparr>errorDiv_active := False\<rparr>"

subsection \<open>Theme\<close>

definition updateThemeIcon :: "string \<Rightarrow> app \<Rightarrow> app" where
  "updateThemeIcon theme s =
     (if theme = ''light''
      then s\<lparr>sunIcon_display := ''block'', moonIcon_display := ''none''\<rparr>
      else s\<lparr>sunIcon_display := ''none'', moonIcon_display := ''block''\<rparr>)"

text \<open>
  \<^verbatim>\<open>localStorage.getItem('theme') || 'light'\<close>: the default replaces a missing
  entry (\<^verbatim>\<open>null\<close>) and the empty string, the two falsy values a stored item can
  have.
\<close>

definition savedTheme :: "app \<Rightarrow> string" where
  "savedTheme s =
     (case localStorage_theme s of
        None \<Rightarrow> ''light''
      | Some t \<Rightarrow> if t = [] then ''light'' else t)"

definition initializeTheme :: "app \<Rightarrow> app" where
  "initializeTheme s =
     updateThemeIcon (savedTheme s) (s\<lparr>data_theme := Some (savedTheme s)\<rparr>)"

definition toggleTheme :: "app \<Rightarrow> app" where
  "toggleTheme s =
     (let currentTheme = data_theme s;
          newTheme = (if currentTheme = Some ''light'' then ''dark'' else ''light'')
      in updateThemeIcon newTheme
           (s\<lparr>data_theme := Some newTheme, localStorage_theme := Some newTheme\<rparr>))"

subsection \<open>Loading the model\<close>

text \<open>
  \<^verbatim>\<open>models[size] || models['base']\<close> for the three keys of the table. (Keys that
  an object literal inherits, such as \<^verbatim>\<open>constructor\<close>, are not values of the
  selector and are not modelled.)
\<close>

definition getModelName :: "string \<Rightarrow> string" where
  "getModelName sz =
     (if sz = ''tiny'' then ''Xenova/whisper-tiny''
      else if sz = ''base'' then ''Xenova/whisper-base''
      else if sz = ''small'' then ''Xenova/whisper-small''
      else ''Xenova/whisper-base'')"

definition initializeModel :: "app \<Rightarrow> app \<times> completion" where
  "initializeModel s =
     (let s1 = updateStatus ''Loading Whisper AI model...'' ''loading'' s;
          s2 = showProgress 0 s1;
          modelName = getModelName (modelSelect_value s2);
          s3 = s2\<lparr>calls := calls s2 @ [PipelineCall ''automatic-speech-recognition'' modelName]\<rparr>
      in (s3, Suspended [In_initializeModel modelName]))"

text \<open>
  The progress callback; \<open>percent\<close> is \<^verbatim>\<open>Math.round((loaded / total) * 100)\<close>,
  a floating-point computation that is taken as given.
\<close>

definition progress_callback :: "string \<Rightarrow> string \<Rightarrow> nat \<Rightarrow> app \<Rightarrow> app" where
  "progress_callback modelName progress_status percent s =
     (if progress_status = ''progress''
      then showProgress percent
             (updateStatus (''Loading '' @ modelName @ '': '' @ toString percent @ ''%'') ''loading'' s)
      else s)"

definition initializeModel_resume :: "capability promise \<Rightarrow> app \<Rightarrow> app" where
  "initializeModel_resume p s =
     (case p of
        Fulfilled c \<Rightarrow>
          updateStatus ''Ready to record! Click the button to start.'' ''ready''
            (hideProgress (s\<lparr>transcriber := Some c\<rparr>))
      | Rejected e \<Rightarrow>
          updateStatus ''Model loading failed'' ''error''
            (showError ''Failed to load AI model. Please refresh and try again.'' s))"

definition onModelChange_resume :: "app \<Rightarrow> app" where
  "onModelChange_resume s = s\<lparr>isModelLoading := False\<rparr>"

definition onModelChange :: "app \<Rightarrow> app \<times> completion" where
  "onModelChange s =
     (if isModelLoading s then (s, Returned)
      else
        (let s1 = s\<lparr>isModelLoading := True\<rparr>;
             s2 = s1\<lparr>transcriber := None\<rparr>;
             (s3, c) = initializeModel s2
         in case c of
              Suspended k \<Rightarrow> (s3, Suspended (k @ [In_onModelChange]))
            | Threw e \<Rightarrow> (s3, Threw e)
            | Returned \<Rightarrow> (onModelChange_resume s3, Returned)))"

subsection \<open>Timers\<close>

text \<open>
  \<^verbatim>\<open>setTimeout\<close> and \<^verbatim>\<open>setInterval\<close> draw their identifiers from one counter;
  identifiers are positive. A timeout is kept with the time at which it is due.
\<close>

definition setTimeout :: "timeout_callback \<Rightarrow> nat \<Rightarrow> app \<Rightarrow> app" where
  "setTimeout cb delay s =
     s\<lparr>timer_ids := timer_ids s + 1, timeouts := timeouts s @ [(clock s + delay, cb)]\<rparr>"

definition setInterval :: "app \<Rightarrow> app \<times> nat" where
  "setInterval s =
     (let i = timer_ids s + 1
      in (s\<lparr>timer_ids := i, intervals := intervals s @ [i]\<rparr>, i))"

definition clearInterval :: "nat \<Rightarrow> app \<Rightarrow> app" where
  "clearInterval i s = s\<lparr>intervals := removeAll i (intervals s)\<rparr>"

definition updateTimer :: "app \<Rightarrow> app" where
  "updateTimer s =
     (case startTime s of
        None \<Rightarrow> s
      | Some t \<Rightarrow>
          if t = 0 then s
          else
            (let elapsed = int (clock s) - int t;
                 seconds = js_rem (elapsed div 1000) 60;
                 minutes = elapsed div 60000
             in s\<lparr>timer_textContent :=
                    padStart 2 CHR ''0'' (toString_int minutes) @ '':'' @
                    padStart 2 CHR ''0'' (toString_int seconds)\<rparr>))"

subsection \<open>Recording\<close>

text \<open>
  \<^verbatim>\<open>startRecording\<close> up to \<^verbatim>\<open>await navigator.mediaDevices.getUserMedia(...)\<close>.
  The page is taken to be in a secure context, where \<^verbatim>\<open>navigator.mediaDevices\<close>
  and \<^verbatim>\<open>navigator.clipboard\<close> exist.
\<close>

definition startRecording :: "app \<Rightarrow> app \<times> completion" where
  "startRecording s =
     (if transcriber s = None
      then (showError ''AI model not loaded yet. Please wait...'' s, Returned)
      else
        (let s1 = hideError s;
             s2 = s1\<lparr>calls := calls s1 @ [GetUserMedia]\<rparr>
         in (s2, Suspended [In_startRecording])))"

definition startRecording_catch :: "app \<Rightarrow> app" where
  "startRecording_catch s =
     showError ''Failed to start recording. Please ensure microphone permission is granted.'' s"

text \<open>
  \<^verbatim>\<open>new MediaRecorder(stream, {mimeType: 'audio/webm'})\<close> throws
  \<^verbatim>\<open>NotSupportedError\<close> when the browser cannot record that type; otherwise the
  new recorder is inactive. \<^verbatim>\<open>start\<close> on a new recorder is taken to succeed.
\<close>

definition new_MediaRecorder :: "nat \<Rightarrow> string \<Rightarrow> app \<Rightarrow> string + (app \<times> nat)" where
  "new_MediaRecorder stream mimeType s =
     (if mimeType \<in> set (supported_mimeTypes s)
      then Inr (s\<lparr>recorders := recorders s @
                    [\<lparr>rec_stream = stream, rec_state = Inactive, rec_stop_queued = False\<rparr>]\<rparr>,
                length (recorders s))
      else Inl ''NotSupportedError'')"

definition recorder_start :: "nat \<Rightarrow> app \<Rightarrow> app" where
  "recorder_start r s =
     s\<lparr>recorders := (recorders s)[r := (recorders s ! r)\<lparr>rec_state := Recording\<rparr>]\<rparr>"

text \<open>
  The rest of \<^verbatim>\<open>startRecording\<close>, once \<^verbatim>\<open>getUserMedia\<close> has settled; a
  fulfilled promise carries the stream.
\<close>

definition startRecording_resume :: "nat promise \<Rightarrow> app \<Rightarrow> app" where
  "startRecording_resume p s =
     (case p of
        Rejected e \<Rightarrow> startRecording_catch s
      | Fulfilled stream \<Rightarrow>
          (case new_MediaRecorder stream ''audio/webm'' s of
             Inl e \<Rightarrow> startRecording_catch s
           | Inr (s0, r) \<Rightarrow>
               (let s1 = s0\<lparr>mediaRecorder := Some r\<rparr>;
                    s2 = s1\<lparr>audioChunks := []\<rparr>;
                    s3 = recorder_start r s2;
                    s4 = s3\<lparr>isRecording := True\<rparr>;
                    s5 = s4\<lparr>buttonText_textContent := ''Stop Recording'',
                            recordButton_recording := True,
                            recordIcon_display := ''none'',
                            stopIcon_display := ''block'',
                            waveform_active := True,
                            timer_active := True\<rparr>;
                    s6 = updateStatus ''Recording... Speak clearly into your microphone.''
                           ''recording'' s5;
                    s7 = s6\<lparr>startTime := Some (clock s6)\<rparr>;
                    s8 = updateTimer s7;
                    (s9, i) = setInterval s8;
                    s10 = s9\<lparr>timerInterval := Some i\<rparr>
                in setTimeout AutoStop 300000 s10)))"

text \<open>
  \<^verbatim>\<open>mediaRecorder.stop()\<close> throws \<^verbatim>\<open>InvalidStateError\<close> on an inactive
  recorder; nothing has been changed by then, and the method's promise is rejected.
\<close>

definition recorder_stop :: "nat \<Rightarrow> app \<Rightarrow> string + app" where
  "recorder_stop r s =
     (if r < length (recorders s) \<and> rec_state (recorders s ! r) = Recording
      then Inr (s\<lparr>recorders := (recorders s)
                  [r := (recorders s ! r)\<lparr>rec_state := Inactive, rec_stop_queued := True\<rparr>]\<rparr>)
      else Inl ''InvalidStateError'')"

definition stopRecording :: "app \<Rightarrow> app \<times> completion" where
  "stopRecording s =
     (case mediaRecorder s of
        None \<Rightarrow> (s, Returned)
      | Some r \<Rightarrow>
          if \<not> isRecording s then (s, Returned)
          else
            (case recorder_stop r s of
               Inl e \<Rightarrow> (s, Threw e)
             | Inr s1 \<Rightarrow>
                 (let s2 = s1\<lparr>isRecording := False\<rparr>;
                      s3 = s2\<lparr>buttonText_textContent := ''Start Recording'',
                              recordButton_recording := False,
                              recordIcon_display := ''block'',
                              stopIcon_display := ''none'',
                              waveform_active := False,
                              timer_active := False\<rparr>;
                      s4 = (case timerInterval s3 of
                              None \<Rightarrow> s3
                            | Some i \<Rightarrow>
                                if i = 0 then s3
                                else (clearInterval i s3)\<lparr>timerInterval := None\<rparr>)
                  in (updateStatus ''Processing audio...'' ''processing'' s4, Returned))))"

definition toggleRecording :: "app \<Rightarrow> app \<times> completion" where
  "toggleRecording s = (if \<not> isRecording s then startRecording s else stopRecording s)"

definition ondataavailable :: "blob \<Rightarrow> app \<Rightarrow> app" where
  "ondataavailable data s =
     (if length data > 0 then s\<lparr>audioChunks := audioChunks s @ [data]\<rparr> else s)"

subsection \<open>Transcription\<close>

definition transcribe_call_options :: "app \<Rightarrow> transcribe_options" where
  "transcribe_call_options s =
     \<lparr>language = (if languageSelect_value s = ''auto'' then None
                  else Some (languageSelect_value s)),
      task = ''transcribe'',
      chunk_length_s = 30,
      stride_length_s = 5,
      return_timestamps = False\<rparr>"

definition displayTranscription :: "string \<Rightarrow> app \<Rightarrow> app" where
  "displayTranscription txt s =
     s\<lparr>transcriptionText_textContent := txt, transcriptionText_empty := False\<rparr>"

definition processAudio_catch :: "string \<Rightarrow> app \<Rightarrow> app" where
  "processAudio_catch message s =
     hideProgress
       (updateStatus ''Transcription failed'' ''error''
          (showError (''Transcription failed: '' @ message) s))"

text \<open>
  \<^verbatim>\<open>processAudio\<close> up to \<^verbatim>\<open>await this.transcriber(audioUrl, {...})\<close>. Calling
  \<^verbatim>\<open>this.transcriber\<close> while it is \<^verbatim>\<open>null\<close> throws a \<^verbatim>\<open>TypeError\<close> inside the
  \<^verbatim>\<open>try\<close>. Object URLs are not modelled: the capability is handed the blob.
\<close>

definition processAudio :: "blob \<Rightarrow> app \<Rightarrow> app \<times> completion" where
  "processAudio audioBlob s =
     (let s1 = showProgress 0 s;
          s2 = updateStatus ''Converting audio format...'' ''processing'' s1;
          s3 = updateStatus ''Running AI transcription...'' ''processing'' s2;
          s4 = showProgress 50 s3
      in case transcriber s4 of
           None \<Rightarrow> (processAudio_catch ''this.transcriber is not a function'' s4, Returned)
         | Some c \<Rightarrow>
             (s4\<lparr>calls := calls s4 @ [Transcribe c audioBlob (transcribe_call_options s4)]\<rparr>,
              Suspended [In_processAudio]))"

text \<open>
  The rest of \<^verbatim>\<open>processAudio\<close>; a fulfilled promise carries \<^verbatim>\<open>result.text\<close>,
  \<open>None\<close> when the field is absent. \<^verbatim>\<open>result.text || 'No speech detected'\<close>
  replaces an absent and an empty text.
\<close>

definition processAudio_resume :: "string option promise \<Rightarrow> app \<Rightarrow> app" where
  "processAudio_resume p s =
     (case p of
        Rejected message \<Rightarrow> processAudio_catch message s
      | Fulfilled result_text \<Rightarrow>
          (let transcription =
                 (case result_text of
                    None \<Rightarrow> ''No speech detected''
                  | Some t \<Rightarrow> if t = [] then ''No speech detected'' else t);
               s1 = hideProgress s;
               s2 = displayTranscription transcription s1
           in updateStatus ''Transcription complete!'' ''completed'' s2))"

definition stop_tracks :: "nat \<Rightarrow> app \<Rightarrow> app" where
  "stop_tracks stream s = s\<lparr>streams := (streams s)[stream := False]\<rparr>"

text \<open>The \<^verbatim>\<open>onstop\<close> handler that \<^verbatim>\<open>startRecording\<close> installs, closed over its stream.\<close>

definition onstop_resume :: "nat \<Rightarrow> app \<Rightarrow> app" where
  "onstop_resume stream s = stop_tracks stream s"

definition onstop :: "nat \<Rightarrow> app \<Rightarrow> app \<times> completion" where
  "onstop stream s =
     (let audioBlob = concat (audioChunks s);
          (s1, c) = processAudio audioBlob s
      in case c of
           Suspended k \<Rightarrow> (s1, Suspended (k @ [In_onstop stream]))
         | Threw e \<Rightarrow> (s1, Threw e)
         | Returned \<Rightarrow> (onstop_resume stream s1, Returned))"

subsection \<open>Copying the result\<close>

definition copyToClipboard :: "app \<Rightarrow> app \<times> completion" where
  "copyToClipboard s =
     (let txt = transcriptionText_textContent s
      in if txt = [] \<or> transcriptionText_empty s then (s, Returned)
         else (s\<lparr>calls := calls s @ [WriteText txt]\<rparr>, Suspended [In_copyToClipboard]))"

definition copyToClipboard_resume :: "unit promise \<Rightarrow> app \<Rightarrow> app" where
  "copyToClipboard_resume p s =
     (case p of
        Rejected e \<Rightarrow> showError ''Failed to copy to clipboard'' s
      | Fulfilled u \<Rightarrow>
          (let originalText = copyButton_span s;
               s1 = s\<lparr>copyButton_span := ''Copied!'', copyButton_copied := True\<rparr>
           in setTimeout (RestoreCopyButton originalText) 2000 s1))"

subsection \<open>Timeouts firing\<close>

text \<open>
  The two callbacks handed to \<^verbatim>\<open>setTimeout\<close>: the auto-stop of
  \<^verbatim>\<open>startRecording\<close> (which does not await \<^verbatim>\<open>stopRecording\<close>, so an exception
  there is an unhandled rejection) and the restoring of the copy button.
\<close>

definition run_timeout :: "timeout_callback \<Rightarrow> app \<Rightarrow> app" where
  "run_timeout cb s =
     (case cb of
        AutoStop \<Rightarrow> if isRecording s then fst (stopRecording s) else s
      | RestoreCopyButton originalText \<Rightarrow>
          s\<lparr>copyButton_span := originalText, copyButton_copied := False\<rparr>)"

text \<open>
  Time moving to \<open>t\<close>: the timeouts due by then fire in the order of their due
  times, each at its due time. Neither callback sets a timeout, so the timeouts due
  are those pending at the start.
\<close>

fun fire_timeouts :: "(nat \<times> timeout_callback) list \<Rightarrow> app \<Rightarrow> app" where
  "fire_timeouts [] s = s"
| "fire_timeouts ((due, cb) # ts) s =
     fire_timeouts ts
       (run_timeout cb
          (s\<lparr>clock := max (clock s) due, timeouts := remove1 (due, cb) (timeouts s)\<rparr>))"

definition due_by :: "nat \<Rightarrow> app \<Rightarrow> (nat \<times> timeout_callback) list" where
  "due_by t s = sort_key fst (filter (\<lambda>(due, cb). due \<le> t) (timeouts s))"

definition advance_to :: "nat \<Rightarrow> app \<Rightarrow> app" where
  "advance_to t s = (let s1 = fire_timeouts (due_by t s) s in s1\<lparr>clock := max (clock s1) t\<rparr>)"

subsection \<open>Events\<close>

text \<open>
  What the browser delivers to the page: the user's actions on the controls that
  \<^verbatim>\<open>setupEventListeners\<close> wires, the settling of an awaited promise (named by the
  position of its task in \<open>pending\<close>), the events of a recorder, and time. A
  stream is created when \<^verbatim>\<open>getUserMedia\<close> is fulfilled. The tick of the timer
  display, every 100 milliseconds while its interval is registered, is an event of
  its own; it only rewrites the label.
\<close>

datatype event =
    Click_recordButton
  | Click_copyButton
  | Change_modelSelect string
  | Change_languageSelect string
  | Click_themeToggle
  | Pipeline_progress nat string nat
  | Pipeline_settled nat "unit promise"
  | GetUserMedia_settled nat "unit promise"
  | Transcriber_settled nat "string option promise"
  | WriteText_settled nat "unit promise"
  | Recorder_dataavailable nat blob
  | Recorder_stop nat
  | Interval_tick nat
  | Time_passes nat

definition register :: "app \<times> completion \<Rightarrow> app" where
  "register sc =
     (case sc of
        (s, Suspended k) \<Rightarrow> s\<lparr>pending := pending s @ [k]\<rparr>
      | (s, _) \<Rightarrow> s)"

definition take_pending :: "nat \<Rightarrow> app \<Rightarrow> app" where
  "take_pending i s = s\<lparr>pending := take i (pending s) @ drop (Suc i) (pending s)\<rparr>"

text \<open>
  The callers of a method that has returned: \<^verbatim>\<open>onModelChange\<close> after
  \<^verbatim>\<open>await this.initializeModel()\<close>, \<^verbatim>\<open>onstop\<close> after
  \<^verbatim>\<open>await this.processAudio(audioBlob)\<close>.
\<close>

fun resume_callers :: "frame list \<Rightarrow> app \<Rightarrow> app" where
  "resume_callers [] s = s"
| "resume_callers (In_onModelChange # k) s = resume_callers k (onModelChange_resume s)"
| "resume_callers (In_onstop stream # k) s = resume_callers k (onstop_resume stream s)"
| "resume_callers (f # k) s = resume_callers k s"

definition pending_task :: "nat \<Rightarrow> app \<Rightarrow> frame list" where
  "pending_task i s = (if i < length (pending s) then pending s ! i else [])"

definition step :: "event \<Rightarrow> app \<Rightarrow> app" where
  "step e s =
     (case e of
        Click_recordButton \<Rightarrow> register (toggleRecording s)
      | Click_copyButton \<Rightarrow> register (copyToClipboard s)
      | Change_modelSelect v \<Rightarrow> register (onModelChange (s\<lparr>modelSelect_value := v\<rparr>))
      | Change_languageSelect v \<Rightarrow> s\<lparr>languageSelect_value := v\<rparr>
      | Click_themeToggle \<Rightarrow> toggleTheme s
      | Pipeline_progress i progress_status percent \<Rightarrow>
          (case pending_task i s of
             In_initializeModel modelName # k \<Rightarrow>
               progress_callback modelName progress_status percent s
           | _ \<Rightarrow> s)
      | Pipeline_settled i p \<Rightarrow>
          (case pending_task i s of
             In_initializeModel modelName # k \<Rightarrow>
               resume_callers k
                 (initializeModel_resume
                    (case p of Fulfilled u \<Rightarrow> Fulfilled (Pipeline modelName)
                             | Rejected m \<Rightarrow> Rejected m)
                    (take_pending i s))
           | _ \<Rightarrow> s)
      | GetUserMedia_settled i p \<Rightarrow>
          (case pending_task i s of
             In_startRecording # k \<Rightarrow>
               (let s0 = take_pending i s
                in resume_callers k
                     (case p of
                        Fulfilled u \<Rightarrow>
                          startRecording_resume (Fulfilled (length (streams s0)))
                            (s0\<lparr>streams := streams s0 @ [True]\<rparr>)
                      | Rejected m \<Rightarrow> startRecording_resume (Rejected m) s0))
           | _ \<Rightarrow> s)
      | Transcriber_settled i p \<Rightarrow>
          (case pending_task i s of
             In_processAudio # k \<Rightarrow> resume_callers k (processAudio_resume p (take_pending i s))
           | _ \<Rightarrow> s)
      | WriteText_settled i p \<Rightarrow>
          (case pending_task i s of
             In_copyToClipboard # k \<Rightarrow>
               resume_callers k (copyToClipboard_resume p (take_pending i s))
           | _ \<Rightarrow> s)
      | Recorder_dataavailable r data \<Rightarrow>
          (if r < length (recorders s) \<and>
              (rec_state (recorders s ! r) = Recording \<or> rec_stop_queued (recorders s ! r))
           then ondataavailable data s else s)
      | Recorder_stop r \<Rightarrow>
          (if r < length (recorders s) \<and> rec_stop_queued (recorders s ! r)
           then register
                  (onstop (rec_stream (recorders s ! r))
                     (s\<lparr>recorders := (recorders s)
                          [r := (recorders s ! r)\<lparr>rec_stop_queued := False\<rparr>]\<rparr>))
           else s)
      | Interval_tick i \<Rightarrow> (if i \<in> set (intervals s) then updateTimer s else s)
      | Time_passes d \<Rightarrow> advance_to (clock s + d) s)"

definition run :: "event list \<Rightarrow> app \<Rightarrow> app" where
  "run es s = foldl (\<lambda>s e. step e s) s es"

subsection \<open>Construction\<close>

text \<open>
  \<^verbatim>\<open>new VoiceTranscriptionApp()\<close> on the loaded page: the constructor's field
  initialisers, \<^verbatim>\<open>setupEventListeners\<close> (whose only effect on the state is
  \<^verbatim>\<open>initializeTheme\<close>) and the first \<^verbatim>\<open>initializeModel\<close>, which nothing awaits.
\<close>

definition VoiceTranscriptionApp :: "app \<Rightarrow> app" where
  "VoiceTranscriptionApp page =
     (let s = page\<lparr>transcriber := None, mediaRecorder := None, audioChunks := [],
                   isRecording := False, isModelLoading := False, startTime := None,
                   timerInterval := None\<rparr>;
          s1 = initializeTheme s
      in register (initializeModel s1))"

text \<open>
  An example of a loaded page, for evaluating the program: placeholder text marked
  \<^verbatim>\<open>empty\<close>, model \<^verbatim>\<open>base\<close>, language \<^verbatim>\<open>auto\<close>, a browser that records
  \<^verbatim>\<open>audio/webm\<close>, nothing stored, time 1000.
\<close>

definition example_page :: app where
  "example_page =
     \<lparr>transcriber = None, mediaRecorder = None, audioChunks = [], isRecording = False,
      isModelLoading = False, startTime = None, timerInterval = None,
      buttonText_textContent = ''Start Recording'', recordButton_recording = False,
      recordIcon_display = ''block'', stopIcon_display = ''none'',
      waveform_active = False, timer_active = False, timer_textContent = ''00:00'',
      status_textContent = [], status_className = ''status'',
      progressBar_active = False, progressFill_width = ''0%'',
      transcriptionText_textContent = ''Your transcription will appear here'',
      transcriptionText_empty = True,
      copyButton_span = ''Copy'', copyButton_copied = False,
      modelSelect_value = ''base'', languageSelect_value = ''auto'',
      errorDiv_textContent = [], errorDiv_active = False,
      data_theme = None, sunIcon_display = ''block'', moonIcon_display = ''none'',
      localStorage_theme = None, supported_mimeTypes = [''audio/webm''],
      clock = 1000, timer_ids = 0, timeouts = [], intervals = [],
      streams = [], recorders = [], calls = [], pending = []\<rparr>"

subsection \<open>Example runs\<close>

text \<open>
  States reached from the example page, used to evaluate the program: the model
  loaded; a first recording started at time 1000; that recording stopped by the user
  100 seconds later and its \<^verbatim>\<open>stop\<close> event delivered; its transcription
  displayed; a second recording started at time 201000.
\<close>

definition ready_page :: app where
  "ready_page = run [Pipeline_settled 0 (Fulfilled ())] (VoiceTranscriptionApp example_page)"

definition recording_page :: app where
  "recording_page =
     run [Click_recordButton, GetUserMedia_settled 0 (Fulfilled ())] ready_page"

definition processing_page :: app where
  "processing_page =
     run [Time_passes 100000, Recorder_dataavailable 0 [1, 2], Click_recordButton,
          Recorder_stop 0] recording_page"

definition result_page :: app where
  "result_page = run [Transcriber_settled 0 (Fulfilled (Some ''hi''))] processing_page"

definition second_recording_page :: app where
  "second_recording_page =
     run [Time_passes 100000, Click_recordButton, GetUserMedia_settled 0 (Fulfilled ())]
       result_page"

text \<open>
  The model selector changed while the first load is in flight, and the first load
  then settling.
\<close>

definition switching_page :: app where
  "switching_page =
     run [Change_modelSelect ''tiny'', Pipeline_settled 0 (Fulfilled ())]
       (VoiceTranscriptionApp example_page)"

text \<open>The same page in a browser that cannot record \<^verbatim>\<open>audio/webm\<close>.\<close>

definition no_webm_page :: app where
  "no_webm_page = example_page\<lparr>supported_mimeTypes := [''audio/mp4'']\<rparr>"

definition refused_page :: app where
  "refused_page =
     run [Pipeline_settled 0 (Fulfilled ()), Click_recordButton,
          GetUserMedia_settled 0 (Fulfilled ())]
       (VoiceTranscriptionApp no_webm_page)"

subsection \<open>A stream that nothing will release\<close>

text \<open>
  A live stream that no recorder records and that no suspended \<^verbatim>\<open>onstop\<close>
  handler holds. The tracks of a stream are stopped by the \<^verbatim>\<open>onstop\<close> handler of
  a recorder of that stream and by nothing else.
\<close>

definition unowned :: "nat \<Rightarrow> app \<Rightarrow> bool" where
  "unowned stream s =
     (stream < length (streams s) \<and> streams s ! stream \<and>
      stream \<notin> set (map rec_stream (recorders s)) \<and>
      In_onstop stream \<notin> set (concat (pending s)))"

subsection \<open>A model change in flight\<close>

text \<open>
  The suspended tasks in which \<^verbatim>\<open>onModelChange\<close> awaits its
  \<^verbatim>\<open>initializeModel\<close>, and the agreement of their number with
  \<^verbatim>\<open>this.isModelLoading\<close>.
\<close>

definition changes_in_flight :: "app \<Rightarrow> nat" where
  "changes_in_flight s = length (filter (\<lambda>k. In_onModelChange \<in> set k) (pending s))"

definition flag_tracks_change :: "app \<Rightarrow> bool" where
  "flag_tracks_change s = (changes_in_flight s = (if isModelLoading s then 1 else 0))"

subsection \<open>The options of a transcription call\<close>

text \<open>
  What every call of the capability is to satisfy: the fixed options, and a language
  that is \<^verbatim>\<open>null\<close> or a language other than \<^verbatim>\<open>auto\<close>.
\<close>

definition fixed_options :: "call \<Rightarrow> bool" where
  "fixed_options c =
     (case c of
        Transcribe cap audio opts \<Rightarrow>
          task opts = ''transcribe'' \<and> chunk_length_s opts = 30 \<and>
          stride_length_s opts = 5 \<and> \<not> return_timestamps opts \<and>
          language opts \<noteq> Some ''auto''
      | _ \<Rightarrow> True)"

definition calls_well_formed :: "app \<Rightarrow> bool" where
  "calls_well_formed s = list_all fixed_options (calls s)"

section \<open>Evaluating the program\<close>

declare toString.simps [simp del]

lemma toString_small: "n < 10 \<Longrightarrow> toString n = [digit n]"
  by (simp add: toString.simps)

lemma toString_large: "\<not> n < 10 \<Longrightarrow> toString n = toString (n div 10) @ [digit n]"
  by (simp add: toString.simps)

lemmas display_defs =
  updateStatus_def showProgress_def hideProgress_def showError_def hideError_def
  displayTranscription_def updateThemeIcon_def

lemmas text_defs =
  digit_def toString_int_def padStart_def js_rem_def toString_small toString_large

lemmas method_defs =
  savedTheme_def initializeTheme_def toggleTheme_def getModelName_def
  initializeModel_def progress_callback_def initializeModel_resume_def
  onModelChange_resume_def onModelChange_def setTimeout_def setInterval_def
  clearInterval_def updateTimer_def startRecording_def startRecording_catch_def
  new_MediaRecorder_def recorder_start_def startRecording_resume_def recorder_stop_def
  stopRecording_def toggleRecording_def ondataavailable_def transcribe_call_options_def
  processAudio_catch_def processAudio_def processAudio_resume_def stop_tracks_def
  onstop_resume_def onstop_def copyToClipboard_def copyToClipboard_resume_def

lemmas event_defs =
  run_timeout_def due_by_def advance_to_def register_def take_pending_def
  pending_task_def step_def run_def VoiceTranscriptionApp_def

lemmas eval_defs = display_defs text_defs method_defs event_defs Let_def

text \<open>The example runs, state by state, as differences to the state before.\<close>

lemma ready_page_eq:
  "ready_page =
     example_page\<lparr>transcriber := Some (Pipeline ''Xenova/whisper-base''),
       status_textContent := ''Ready to record! Click the button to start.'',
       status_className := ''status ready'',
       data_theme := Some ''light'',
       calls := [PipelineCall ''automatic-speech-recognition'' ''Xenova/whisper-base'']\<rparr>"
  by (simp add: ready_page_def example_page_def eval_defs cong: let_weak_cong)

lemma recording_page_eq:
  "recording_page =
     ready_page\<lparr>mediaRecorder := Some 0, isRecording := True, startTime := Some 1000,
       timerInterval := Some 1,
       buttonText_textContent := ''Stop Recording'', recordButton_recording := True,
       recordIcon_display := ''none'', stopIcon_display := ''block'',
       waveform_active := True, timer_active := True,
       status_textContent := ''Recording... Speak clearly into your microphone.'',
       status_className := ''status recording'',
       timer_ids := 2, timeouts := [(301000, AutoStop)], intervals := [1],
       streams := [True],
       recorders := [\<lparr>rec_stream = 0, rec_state = Recording, rec_stop_queued = False\<rparr>],
       calls := calls ready_page @ [GetUserMedia]\<rparr>"
  by (simp add: recording_page_def ready_page_eq example_page_def eval_defs
      cong: let_weak_cong)

lemma processing_page_eq:
  "processing_page =
     recording_page\<lparr>audioChunks := [[1, 2]], isRecording := False, timerInterval := None,
       buttonText_textContent := ''Start Recording'', recordButton_recording := False,
       recordIcon_display := ''block'', stopIcon_display := ''none'',
       waveform_active := False, timer_active := False,
       status_textContent := ''Running AI transcription...'',
       status_className := ''status processing'',
       progressBar_active := True, progressFill_width := ''50%'',
       clock := 101000, intervals := [],
       recorders := [\<lparr>rec_stream = 0, rec_state = Inactive, rec_stop_queued = False\<rparr>],
       calls := calls recording_page @
         [Transcribe (Pipeline ''Xenova/whisper-base'') [1, 2]
            \<lparr>language = None, task = ''transcribe'', chunk_length_s = 30,
             stride_length_s = 5, return_timestamps = False\<rparr>],
       pending := [[In_processAudio, In_onstop 0]]\<rparr>"
  by (simp add: processing_page_def recording_page_eq ready_page_eq example_page_def
      eval_defs cong: let_weak_cong)

lemma result_page_eq:
  "result_page =
     processing_page\<lparr>status_textContent := ''Transcription complete!'',
       status_className := ''status completed'', progressBar_active := False,
       transcriptionText_textContent := ''hi'', transcriptionText_empty := False,
       streams := [False], pending := []\<rparr>"
  by (simp add: result_page_def processing_page_eq recording_page_eq ready_page_eq
      example_page_def eval_defs cong: let_weak_cong)

lemma second_recording_page_eq:
  "second_recording_page =
     result_page\<lparr>mediaRecorder := Some 1, audioChunks := [], isRecording := True,
       startTime := Some 201000, timerInterval := Some 3,
       buttonText_textContent := ''Stop Recording'', recordButton_recording := True,
       recordIcon_display := ''none'', stopIcon_display := ''block'',
       waveform_active := True, timer_active := True,
       status_textContent := ''Recording... Speak clearly into your microphone.'',
       status_className := ''status recording'',
       clock := 201000, timer_ids := 4,
       timeouts := [(301000, AutoStop), (501000, AutoStop)], intervals := [3],
       streams := [False, True],
       recorders := [\<lparr>rec_stream = 0, rec_state = Inactive, rec_stop_queued = False\<rparr>,
                     \<lparr>rec_stream = 1, rec_state = Recording, rec_stop_queued = False\<rparr>],
       calls := calls result_page @ [GetUserMedia]\<rparr>"
  by (simp add: second_recording_page_def result_page_eq processing_page_eq
      recording_page_eq ready_page_eq example_page_def eval_defs cong: let_weak_cong)

lemmas page_eqs =
  second_recording_page_eq result_page_eq processing_page_eq recording_page_eq
  ready_page_eq example_page_def

section \<open>Starting a recording\<close>

text \<open>
  Claim C4. When \<^verbatim>\<open>startRecording\<close> is called while \<^verbatim>\<open>this.transcriber\<close> is
  \<^verbatim>\<open>null\<close>, the method returns at once: the only change to the state is the error
  message ``AI model not loaded yet. Please wait...'' being shown. In particular
  \<^verbatim>\<open>getUserMedia\<close> is not called, nothing is left pending, the recording flag and
  the status are what they were. A click on the record button while not recording is
  that call.
\<close>

theorem startRecording_rejected_without_model:
  assumes "transcriber s = None"
  shows "startRecording s = (showError ''AI model not loaded yet. Please wait...'' s, Returned)
    \<and> calls (fst (startRecording s)) = calls s
    \<and> isRecording (fst (startRecording s)) = isRecording s
    \<and> status_className (fst (startRecording s)) = status_className s
    \<and> errorDiv_active (fst (startRecording s))
    \<and> errorDiv_textContent (fst (startRecording s)) = ''AI model not loaded yet. Please wait...''
    \<and> (\<not> isRecording s \<longrightarrow>
        step Click_recordButton s =
          s\<lparr>errorDiv_textContent := ''AI model not loaded yet. Please wait...'',
            errorDiv_active := True\<rparr>)"
  using assms
  by (simp add: startRecording_def showError_def step_def toggleRecording_def register_def)

theorem startRecording_rejected_without_model_witness:
  "transcriber (VoiceTranscriptionApp example_page) = None
   \<and> calls (fst (startRecording (VoiceTranscriptionApp example_page)))
       = [PipelineCall ''automatic-speech-recognition'' ''Xenova/whisper-base'']
   \<and> pending (step Click_recordButton (VoiceTranscriptionApp example_page))
       = [[In_initializeModel ''Xenova/whisper-base'']]
   \<and> status_className (step Click_recordButton (VoiceTranscriptionApp example_page))
       = ''status loading''
   \<and> errorDiv_textContent (step Click_recordButton (VoiceTranscriptionApp example_page))
       = ''AI model not loaded yet. Please wait...''"
proof -
  have none: "transcriber (VoiceTranscriptionApp example_page) = None"
    by (simp add: example_page_def eval_defs cong: let_weak_cong)
  have idle: "\<not> isRecording (VoiceTranscriptionApp example_page)"
    by (simp add: example_page_def eval_defs cong: let_weak_cong)
  have before:
    "calls (VoiceTranscriptionApp example_page)
       = [PipelineCall ''automatic-speech-recognition'' ''Xenova/whisper-base'']
     \<and> pending (VoiceTranscriptionApp example_page) = [[In_initializeModel ''Xenova/whisper-base'']]
     \<and> status_className (VoiceTranscriptionApp example_page) = ''status loading''"
    by (simp add: example_page_def eval_defs cong: let_weak_cong)
  from startRecording_rejected_without_model [OF none] idle before none
  show ?thesis by (simp add: showError_def)
qed

text \<open>
  Claim C1, as amended. When a recording starts (the stream obtained and the browser
  able to record \<^verbatim>\<open>audio/webm\<close>), \<^verbatim>\<open>this.audioChunks\<close> is empty when the new
  recorder is recording; the displayed transcription and its \<^verbatim>\<open>empty\<close> mark are
  left as they were.
\<close>

theorem startRecording_resets_chunks_keeps_text:
  assumes "''audio/webm'' \<in> set (supported_mimeTypes s)"
  shows "audioChunks (startRecording_resume (Fulfilled stream) s) = []
    \<and> isRecording (startRecording_resume (Fulfilled stream) s)
    \<and> mediaRecorder (startRecording_resume (Fulfilled stream) s) = Some (length (recorders s))
    \<and> recorders (startRecording_resume (Fulfilled stream) s) =
        recorders s @ [\<lparr>rec_stream = stream, rec_state = Recording, rec_stop_queued = False\<rparr>]
    \<and> transcriptionText_textContent (startRecording_resume (Fulfilled stream) s)
        = transcriptionText_textContent s
    \<and> transcriptionText_empty (startRecording_resume (Fulfilled stream) s)
        = transcriptionText_empty s"
  using assms
  by (simp add: startRecording_resume_def new_MediaRecorder_def recorder_start_def
      updateStatus_def updateTimer_def setInterval_def setTimeout_def Let_def
      split: option.split)

theorem startRecording_resets_chunks_keeps_text_witness:
  "''audio/webm'' \<in> set (supported_mimeTypes result_page)
   \<and> audioChunks result_page = [[1, 2]]
   \<and> audioChunks (startRecording_resume (Fulfilled 1) result_page) = []
   \<and> isRecording (startRecording_resume (Fulfilled 1) result_page)
   \<and> transcriptionText_textContent (startRecording_resume (Fulfilled 1) result_page) = ''hi''"
proof -
  have webm: "''audio/webm'' \<in> set (supported_mimeTypes result_page)"
    by (simp add: page_eqs)
  have before: "audioChunks result_page = [[1, 2]]
      \<and> transcriptionText_textContent result_page = ''hi''"
    by (simp add: page_eqs)
  from startRecording_resets_chunks_keeps_text [OF webm, of 1] webm before
  show ?thesis by simp
qed

text \<open>
  Claim C1 as the specification has it (the result text is reset too) fails: the
  second recording of the example run is under way with the result of the first
  still displayed and not marked \<^verbatim>\<open>empty\<close>.
\<close>

theorem result_text_reset_counterexample:
  "transcriptionText_textContent result_page = ''hi''
   \<and> isRecording second_recording_page
   \<and> audioChunks second_recording_page = []
   \<and> transcriptionText_textContent second_recording_page = ''hi''
   \<and> \<not> transcriptionText_empty second_recording_page"
  by (simp add: page_eqs)

section \<open>Changing the model\<close>

text \<open>
  Claim C10. While \<^verbatim>\<open>this.isModelLoading\<close> is set, \<^verbatim>\<open>onModelChange\<close> returns
  at once and changes nothing: the capability held in \<^verbatim>\<open>this.transcriber\<close> stays,
  \<^verbatim>\<open>pipeline\<close> is not called again and nothing more is awaited. Of the event, only
  the selector's new value remains.
\<close>

theorem onModelChange_ignored_while_loading:
  assumes "isModelLoading s"
  shows "onModelChange s = (s, Returned)
    \<and> step (Change_modelSelect v) s = s\<lparr>modelSelect_value := v\<rparr>
    \<and> transcriber (step (Change_modelSelect v) s) = transcriber s
    \<and> calls (step (Change_modelSelect v) s) = calls s
    \<and> pending (step (Change_modelSelect v) s) = pending s"
  using assms by (simp add: onModelChange_def step_def register_def)

theorem onModelChange_ignored_while_loading_witness:
  "isModelLoading switching_page
   \<and> transcriber switching_page = Some (Pipeline ''Xenova/whisper-base'')
   \<and> pending switching_page = [[In_initializeModel ''Xenova/whisper-tiny'', In_onModelChange]]
   \<and> transcriber (step (Change_modelSelect ''small'') switching_page)
       = Some (Pipeline ''Xenova/whisper-base'')
   \<and> calls (step (Change_modelSelect ''small'') switching_page) = calls switching_page
   \<and> pending (step (Change_modelSelect ''small'') switching_page)
       = [[In_initializeModel ''Xenova/whisper-tiny'', In_onModelChange]]"
proof -
  have loading: "isModelLoading switching_page"
    by (simp add: switching_page_def example_page_def eval_defs cong: let_weak_cong)
  have before: "transcriber switching_page = Some (Pipeline ''Xenova/whisper-base'')
      \<and> pending switching_page = [[In_initializeModel ''Xenova/whisper-tiny'', In_onModelChange]]"
    by (simp add: switching_page_def example_page_def eval_defs cong: let_weak_cong)
  from onModelChange_ignored_while_loading [OF loading, of "''small''"] loading before
  show ?thesis by simp
qed

text \<open>
  Claim C2, as amended. \<^verbatim>\<open>onModelChange\<close> consults \<^verbatim>\<open>this.isModelLoading\<close> and
  nothing else. It changes nothing exactly when that flag is set; when the flag is
  clear it discards the capability, calls \<^verbatim>\<open>pipeline\<close> for the selected model and
  awaits it, whether or not a recording is under way, and the recording flag is left
  as it was.
\<close>

theorem onModelChange_guarded_by_loading_flag_only:
  "(onModelChange s = (s, Returned)) = isModelLoading s
   \<and> (\<not> isModelLoading s \<longrightarrow>
        transcriber (fst (onModelChange s)) = None
         \<and> isModelLoading (fst (onModelChange s))
         \<and> calls (fst (onModelChange s)) =
             calls s @ [PipelineCall ''automatic-speech-recognition''
                          (getModelName (modelSelect_value s))]
         \<and> snd (onModelChange s) =
             Suspended [In_initializeModel (getModelName (modelSelect_value s)),
                        In_onModelChange]
         \<and> isRecording (fst (onModelChange s)) = isRecording s
         \<and> status_className (fst (onModelChange s)) = ''status loading'')"
  by (simp add: onModelChange_def initializeModel_def updateStatus_def showProgress_def
      Let_def)

theorem onModelChange_guarded_by_loading_flag_only_witness:
  "isRecording recording_page \<and> \<not> isModelLoading recording_page
   \<and> onModelChange recording_page \<noteq> (recording_page, Returned)
   \<and> transcriber (fst (onModelChange recording_page)) = None
   \<and> isRecording (fst (onModelChange recording_page))"
proof -
  have now: "isRecording recording_page \<and> \<not> isModelLoading recording_page"
    by (simp add: page_eqs)
  from onModelChange_guarded_by_loading_flag_only [of recording_page] now
  show ?thesis by simp
qed

text \<open>
  Claim C2 as the specification has it (no effect while recording) fails: in the
  example run the model selector is changed while the first recording is under way; the capability is discarded and
  a load of the newly selected model starts.
\<close>

theorem model_change_while_recording_counterexample:
  "isRecording recording_page
   \<and> status_className recording_page = ''status recording''
   \<and> transcriber recording_page = Some (Pipeline ''Xenova/whisper-base'')
   \<and> transcriber (step (Change_modelSelect ''tiny'') recording_page) = None
   \<and> calls (step (Change_modelSelect ''tiny'') recording_page) =
       calls recording_page @
         [PipelineCall ''automatic-speech-recognition'' ''Xenova/whisper-tiny'']
   \<and> pending (step (Change_modelSelect ''tiny'') recording_page) =
       [[In_initializeModel ''Xenova/whisper-tiny'', In_onModelChange]]
   \<and> isRecording (step (Change_modelSelect ''tiny'') recording_page)"
  by (simp add: page_eqs eval_defs cong: let_weak_cong)

section \<open>Transcription and copying\<close>

text \<open>
  Claim C6. \<^verbatim>\<open>processAudio\<close> calls the capability held in \<^verbatim>\<open>this.transcriber\<close>
  once, with the recorded audio and these options: the language is \<^verbatim>\<open>null\<close> when
  the language selector reads \<^verbatim>\<open>auto\<close> and the selector's value otherwise; the
  task is \<^verbatim>\<open>transcribe\<close>, the chunk length 30, the stride length 5, and no
  timestamps are asked for. (With no capability there is no call.)
\<close>

theorem processAudio_call_options:
  "calls (fst (processAudio audioBlob s)) =
     (case transcriber s of
        None \<Rightarrow> calls s
      | Some c \<Rightarrow>
          calls s @
            [Transcribe c audioBlob
               \<lparr>language = (if languageSelect_value s = ''auto'' then None
                            else Some (languageSelect_value s)),
                task = ''transcribe'', chunk_length_s = 30, stride_length_s = 5,
                return_timestamps = False\<rparr>])"
  by (simp add: processAudio_def transcribe_call_options_def processAudio_catch_def
      display_defs Let_def split: option.split)

text \<open>
  Claim C9. When the capability's result has no text, or the empty text, the
  transcription displayed is ``No speech detected'', the \<^verbatim>\<open>empty\<close> mark is
  removed and the status is that of a completed transcription; a copy then writes
  that sentence to the clipboard.
\<close>

theorem silent_result_shows_no_speech_detected:
  assumes "result_text = None \<or> result_text = Some []"
  shows "transcriptionText_textContent (processAudio_resume (Fulfilled result_text) s)
      = ''No speech detected''
    \<and> \<not> transcriptionText_empty (processAudio_resume (Fulfilled result_text) s)
    \<and> status_textContent (processAudio_resume (Fulfilled result_text) s)
      = ''Transcription complete!''
    \<and> status_className (processAudio_resume (Fulfilled result_text) s) = ''status completed''
    \<and> calls (fst (copyToClipboard (processAudio_resume (Fulfilled result_text) s)))
      = calls s @ [WriteText ''No speech detected'']
    \<and> snd (copyToClipboard (processAudio_resume (Fulfilled result_text) s))
      = Suspended [In_copyToClipboard]"
  using assms
  by (auto simp add: processAudio_resume_def copyToClipboard_def display_defs Let_def)

theorem silent_result_shows_no_speech_detected_witness:
  "transcriptionText_empty processing_page
   \<and> transcriptionText_textContent
       (step (Transcriber_settled 0 (Fulfilled (Some []))) processing_page)
       = ''No speech detected''
   \<and> \<not> transcriptionText_empty
       (step (Transcriber_settled 0 (Fulfilled (Some []))) processing_page)
   \<and> status_className (step (Transcriber_settled 0 (Fulfilled (Some []))) processing_page)
       = ''status completed''"
proof -
  have run:
    "step (Transcriber_settled 0 (Fulfilled (Some []))) processing_page =
       onstop_resume 0 (processAudio_resume (Fulfilled (Some [])) (take_pending 0 processing_page))"
    by (simp add: step_def pending_task_def page_eqs)
  have before: "transcriptionText_empty processing_page"
    by (simp add: page_eqs)
  from silent_result_shows_no_speech_detected
         [of "Some []" "take_pending 0 processing_page"] before
  show ?thesis by (simp add: run onstop_resume_def stop_tracks_def)
qed

text \<open>
  Claim C8. When the transcription element has no text, or carries the \<^verbatim>\<open>empty\<close>
  mark of the placeholder, \<^verbatim>\<open>copyToClipboard\<close> returns at once:
  \<^verbatim>\<open>navigator.clipboard.writeText\<close> is not called and nothing changes.
\<close>

theorem copyToClipboard_skips_empty_result:
  assumes "transcriptionText_textContent s = [] \<or> transcriptionText_empty s"
  shows "copyToClipboard s = (s, Returned)
    \<and> step Click_copyButton s = s
    \<and> calls (step Click_copyButton s) = calls s"
  using assms by (auto simp add: copyToClipboard_def step_def register_def)

theorem copyToClipboard_skips_empty_result_witness:
  "transcriptionText_textContent ready_page = ''Your transcription will appear here''
   \<and> transcriptionText_empty ready_page
   \<and> step Click_copyButton ready_page = ready_page
   \<and> calls (step Click_copyButton ready_page)
       = [PipelineCall ''automatic-speech-recognition'' ''Xenova/whisper-base'']"
proof -
  have before: "transcriptionText_textContent ready_page = ''Your transcription will appear here''
      \<and> transcriptionText_empty ready_page
      \<and> calls ready_page = [PipelineCall ''automatic-speech-recognition'' ''Xenova/whisper-base'']"
    by (simp add: page_eqs)
  from copyToClipboard_skips_empty_result [of ready_page] before
  show ?thesis by simp
qed

section \<open>Theme\<close>

text \<open>
  Claim C7, as amended. The theme that \<^verbatim>\<open>initializeTheme\<close> reads and applies is
  the stored one when that is \<^verbatim>\<open>light\<close> or \<^verbatim>\<open>dark\<close>, and \<^verbatim>\<open>light\<close> when
  nothing or the empty string is stored; any other stored value is applied as it is.
  What \<^verbatim>\<open>toggleTheme\<close> stores is \<^verbatim>\<open>light\<close> or \<^verbatim>\<open>dark\<close> and is read back
  unchanged.
\<close>

theorem stored_theme_read_without_validation:
  "data_theme (initializeTheme s) = Some (savedTheme s)
   \<and> (localStorage_theme s = Some ''light'' \<longrightarrow> savedTheme s = ''light'')
   \<and> (localStorage_theme s = Some ''dark'' \<longrightarrow> savedTheme s = ''dark'')
   \<and> (localStorage_theme s = None \<longrightarrow> savedTheme s = ''light'')
   \<and> (localStorage_theme s = Some [] \<longrightarrow> savedTheme s = ''light'')
   \<and> (\<forall>t. localStorage_theme s = Some t \<and> t \<noteq> [] \<longrightarrow> savedTheme s = t)
   \<and> (savedTheme (toggleTheme s) = ''light'' \<or> savedTheme (toggleTheme s) = ''dark'')
   \<and> data_theme (initializeTheme (toggleTheme s)) = data_theme (toggleTheme s)"
  by (simp add: initializeTheme_def savedTheme_def toggleTheme_def updateThemeIcon_def
      Let_def)

theorem stored_theme_read_without_validation_witness:
  "savedTheme (example_page\<lparr>localStorage_theme := Some ''light''\<rparr>) = ''light''
   \<and> savedTheme (example_page\<lparr>localStorage_theme := Some ''dark''\<rparr>) = ''dark''
   \<and> savedTheme example_page = ''light''
   \<and> savedTheme (example_page\<lparr>localStorage_theme := Some []\<rparr>) = ''light''
   \<and> savedTheme (example_page\<lparr>localStorage_theme := Some ''sepia''\<rparr>) = ''sepia''
   \<and> data_theme (toggleTheme (initializeTheme example_page)) = Some ''dark''
   \<and> data_theme (initializeTheme (toggleTheme (initializeTheme example_page))) = Some ''dark''"
proof -
  have unset: "localStorage_theme example_page = None"
    by (simp add: example_page_def)
  have dark: "data_theme (toggleTheme (initializeTheme example_page)) = Some ''dark''"
    by (simp add: example_page_def initializeTheme_def savedTheme_def toggleTheme_def
        updateThemeIcon_def Let_def)
  from stored_theme_read_without_validation
         [of "example_page\<lparr>localStorage_theme := Some ''light''\<rparr>"]
       stored_theme_read_without_validation
         [of "example_page\<lparr>localStorage_theme := Some ''dark''\<rparr>"]
       stored_theme_read_without_validation [of example_page]
       stored_theme_read_without_validation
         [of "example_page\<lparr>localStorage_theme := Some []\<rparr>"]
       stored_theme_read_without_validation
         [of "example_page\<lparr>localStorage_theme := Some ''sepia''\<rparr>"]
       stored_theme_read_without_validation [of "initializeTheme example_page"]
       unset dark
  show ?thesis by simp
qed

text \<open>
  Claim C7 as the specification has it (the default for any invalid stored value)
  fails: a stored value outside the two themes is not replaced by the default.
\<close>

theorem invalid_stored_theme_counterexample:
  "savedTheme (example_page\<lparr>localStorage_theme := Some ''sepia''\<rparr>) = ''sepia''
   \<and> data_theme (initializeTheme (example_page\<lparr>localStorage_theme := Some ''sepia''\<rparr>))
       = Some ''sepia''
   \<and> moonIcon_display (initializeTheme (example_page\<lparr>localStorage_theme := Some ''sepia''\<rparr>))
       = ''block''"
  by (simp add: initializeTheme_def savedTheme_def updateThemeIcon_def)

section \<open>The five-minute ceiling\<close>

text \<open>
  A recording started with no timeout pending is still under way just before 300
  seconds have passed and is stopped when they have: the first recording of the
  example run, had the user not stopped it.
\<close>

lemma first_recording_stops_at_ceiling:
  "startTime recording_page = Some 1000
   \<and> isRecording (step (Time_passes 299999) recording_page)
   \<and> \<not> isRecording (step (Time_passes 300000) recording_page)
   \<and> status_className (step (Time_passes 300000) recording_page) = ''status processing''"
  by (simp add: page_eqs eval_defs cong: let_weak_cong)

text \<open>
  Claim C3 fails on the code. \<^verbatim>\<open>stopRecording\<close> clears the interval of the timer
  display but not the timeout that \<^verbatim>\<open>startRecording\<close> set, and the timeout's
  callback stops whatever recording is under way. In the example run the first
  recording starts at time 1000 and is stopped by the user; the second starts at
  201000 and is not stopped by the user. The timeout of the first recording is still
  pending; it fires at 301000 and stops the second recording after 100 seconds, the
  state moving to processing, while the second recording's own timeout, due at
  501000, stays pending.
\<close>

theorem stale_timeout_stops_second_recording_early:
  "startTime second_recording_page = Some 201000
   \<and> isRecording second_recording_page
   \<and> timeouts second_recording_page = [(301000, AutoStop), (501000, AutoStop)]
   \<and> isRecording (step (Time_passes 99999) second_recording_page)
   \<and> clock (step (Time_passes 100000) second_recording_page) = 301000
   \<and> \<not> isRecording (step (Time_passes 100000) second_recording_page)
   \<and> status_className (step (Time_passes 100000) second_recording_page)
       = ''status processing''
   \<and> rec_state (recorders (step (Time_passes 100000) second_recording_page) ! 1) = Inactive
   \<and> timeouts (step (Time_passes 100000) second_recording_page) = [(501000, AutoStop)]"
  by (simp add: page_eqs eval_defs cong: let_weak_cong)

section \<open>Releasing the microphone\<close>

text \<open>
  Claim C5 fails on the code. Stopping a recording releases its stream once the
  transcription has settled: after the first recording of the example run, stream 0
  is stopped. But when \<^verbatim>\<open>getUserMedia\<close> has delivered a stream and the
  \<^verbatim>\<open>MediaRecorder\<close> constructor throws, as it does in a browser that cannot record
  \<^verbatim>\<open>audio/webm\<close>, the \<^verbatim>\<open>catch\<close> of \<^verbatim>\<open>startRecording\<close> only shows an error:
  the stream is live, no recorder holds it and nothing is pending that would stop
  its tracks.
\<close>

theorem stream_left_open_when_recorder_refused:
  "streams result_page = [False]
   \<and> calls refused_page =
       [PipelineCall ''automatic-speech-recognition'' ''Xenova/whisper-base'', GetUserMedia]
   \<and> streams refused_page = [True]
   \<and> recorders refused_page = []
   \<and> mediaRecorder refused_page = None
   \<and> pending refused_page = []
   \<and> timeouts refused_page = []
   \<and> \<not> isRecording refused_page
   \<and> errorDiv_active refused_page
   \<and> errorDiv_textContent refused_page =
       ''Failed to start recording. Please ensure microphone permission is granted.''"
  by (simp add: page_eqs refused_page_def no_webm_page_def eval_defs cong: let_weak_cong)

subsection \<open>The stream stays open\<close>

text \<open>
  No event releases a stream that is live, recorded by no recorder and held by no
  suspended \<^verbatim>\<open>onstop\<close> handler: such a stream stays so whatever happens next.
\<close>

lemma unowned_same:
  assumes "streams s' = streams s"
    and "map rec_stream (recorders s') = map rec_stream (recorders s)"
    and "pending s' = pending s"
  shows "unowned stream s' = unowned stream s"
  using assms by (simp add: unowned_def)

lemma rec_stream_update_state:
  "map rec_stream (rs[r := (rs ! r)\<lparr>rec_state := a\<rparr>]) = map rec_stream rs"
  by (cases "r < length rs") (auto simp add: list_eq_iff_nth_eq nth_list_update)

lemma rec_stream_update_stop:
  "map rec_stream (rs[r := (rs ! r)\<lparr>rec_state := a, rec_stop_queued := b\<rparr>])
     = map rec_stream rs"
  by (cases "r < length rs") (auto simp add: list_eq_iff_nth_eq nth_list_update)

lemma rec_stream_update_queued:
  "map rec_stream (rs[r := (rs ! r)\<lparr>rec_stop_queued := b\<rparr>]) = map rec_stream rs"
  by (cases "r < length rs") (auto simp add: list_eq_iff_nth_eq nth_list_update)

lemma stopRecording_unowned:
  "unowned stream (fst (stopRecording s)) = unowned stream s"
  by (rule unowned_same)
     (simp_all add: stopRecording_def recorder_stop_def clearInterval_def updateStatus_def
        rec_stream_update_stop Let_def split: option.split)

lemma unowned_timers:
  "unowned stream (s\<lparr>clock := c, timeouts := ts\<rparr>) = unowned stream s"
  "unowned stream (s\<lparr>clock := c\<rparr>) = unowned stream s"
  by (simp_all add: unowned_def)

lemma run_timeout_unowned: "unowned stream (run_timeout cb s) = unowned stream s"
proof (cases cb)
  case AutoStop
  then show ?thesis by (simp add: run_timeout_def stopRecording_unowned)
next
  case (RestoreCopyButton originalText)
  then show ?thesis by (simp add: run_timeout_def unowned_def)
qed

lemma fire_timeouts_unowned: "unowned stream (fire_timeouts ts s) = unowned stream s"
proof (induction ts arbitrary: s)
  case Nil
  show ?case by simp
next
  case (Cons t ts)
  obtain due cb where t: "t = (due, cb)" by (cases t)
  show ?case
    by (simp add: t Cons.IH run_timeout_unowned unowned_timers)
qed

lemma advance_to_unowned: "unowned stream (advance_to t s) = unowned stream s"
  by (simp add: advance_to_def Let_def unowned_timers fire_timeouts_unowned)

lemma take_pending_unowned: "unowned stream s \<Longrightarrow> unowned stream (take_pending i s)"
proof -
  have "set (concat (take i (pending s) @ drop (Suc i) (pending s))) \<subseteq> set (concat (pending s))"
    by (auto dest: in_set_takeD in_set_dropD)
  then show "unowned stream s \<Longrightarrow> unowned stream (take_pending i s)"
    by (auto simp add: unowned_def take_pending_def)
qed

lemma pending_task_unowned:
  "unowned stream s \<Longrightarrow> In_onstop stream \<notin> set (pending_task i s)"
  by (auto simp add: unowned_def pending_task_def)

lemma register_unowned:
  assumes "unowned stream s" and "\<And>k. c = Suspended k \<Longrightarrow> In_onstop stream \<notin> set k"
  shows "unowned stream (register (s, c))"
  using assms by (cases c) (auto simp add: register_def unowned_def)

lemma onModelChange_resume_unowned:
  "unowned stream (onModelChange_resume s) = unowned stream s"
  by (rule unowned_same) (simp_all add: onModelChange_resume_def)

lemma onstop_resume_unowned:
  "other \<noteq> stream \<Longrightarrow> unowned stream s \<Longrightarrow> unowned stream (onstop_resume other s)"
  by (simp add: unowned_def onstop_resume_def stop_tracks_def nth_list_update)

lemma resume_callers_unowned:
  "unowned stream s \<Longrightarrow> In_onstop stream \<notin> set k \<Longrightarrow> unowned stream (resume_callers k s)"
proof (induction k arbitrary: s)
  case Nil
  then show ?case by simp
next
  case (Cons f k)
  from Cons.prems have k: "In_onstop stream \<notin> set k" by simp
  show ?case
  proof (cases f)
    case In_onModelChange
    from Cons.prems(1) have "unowned stream (onModelChange_resume s)"
      by (simp add: onModelChange_resume_unowned)
    from Cons.IH [OF this k] In_onModelChange show ?thesis by simp
  next
    case (In_onstop other)
    with Cons.prems have "other \<noteq> stream" by simp
    then have "unowned stream (onstop_resume other s)"
      using Cons.prems(1) by (rule onstop_resume_unowned)
    from Cons.IH [OF this k] In_onstop show ?thesis by simp
  next
    case (In_initializeModel m)
    with Cons.IH [OF Cons.prems(1) k] show ?thesis by simp
  next
    case In_startRecording
    with Cons.IH [OF Cons.prems(1) k] show ?thesis by simp
  next
    case In_processAudio
    with Cons.IH [OF Cons.prems(1) k] show ?thesis by simp
  next
    case In_copyToClipboard
    with Cons.IH [OF Cons.prems(1) k] show ?thesis by simp
  qed
qed

lemma startRecording_unowned:
  "unowned stream (fst (startRecording s)) = unowned stream s"
  by (rule unowned_same) (simp_all add: startRecording_def showError_def hideError_def Let_def)

lemma startRecording_suspends:
  "snd (startRecording s) = Suspended k \<Longrightarrow> k = [In_startRecording]"
  by (simp add: startRecording_def Let_def split: if_splits)

lemma stopRecording_returns: "snd (stopRecording s) \<noteq> Suspended k"
  by (simp add: stopRecording_def recorder_stop_def Let_def split: option.split)

lemma toggleRecording_unowned:
  "unowned stream s \<Longrightarrow> unowned stream (register (toggleRecording s))"
proof -
  assume u: "unowned stream s"
  have "unowned stream (register (fst (toggleRecording s), snd (toggleRecording s)))"
  proof (rule register_unowned)
    show "unowned stream (fst (toggleRecording s))"
      using u by (simp add: toggleRecording_def startRecording_unowned stopRecording_unowned)
  next
    fix k assume "snd (toggleRecording s) = Suspended k"
    then show "In_onstop stream \<notin> set k"
      using startRecording_suspends [of s k] stopRecording_returns [of s k]
      by (auto simp add: toggleRecording_def split: if_splits)
  qed
  then show ?thesis by simp
qed

lemma copyToClipboard_unowned:
  "unowned stream s \<Longrightarrow> unowned stream (register (copyToClipboard s))"
  by (auto simp add: copyToClipboard_def register_def unowned_def Let_def)

lemma onModelChange_unowned:
  "unowned stream s \<Longrightarrow> unowned stream (register (onModelChange s))"
  by (auto simp add: onModelChange_def initializeModel_def updateStatus_def showProgress_def
      register_def unowned_def Let_def)

lemma initializeModel_resume_unowned:
  "unowned stream (initializeModel_resume p s) = unowned stream s"
  by (rule unowned_same)
     (simp_all add: initializeModel_resume_def display_defs split: promise.split)

lemma processAudio_resume_unowned:
  "unowned stream (processAudio_resume p s) = unowned stream s"
  by (rule unowned_same)
     (simp_all add: processAudio_resume_def processAudio_catch_def display_defs Let_def
        split: promise.split)

lemma copyToClipboard_resume_unowned:
  "unowned stream (copyToClipboard_resume p s) = unowned stream s"
  by (rule unowned_same)
     (simp_all add: copyToClipboard_resume_def setTimeout_def showError_def Let_def
        split: promise.split)

lemma progress_callback_unowned:
  "unowned stream (progress_callback m st n s) = unowned stream s"
  by (rule unowned_same) (simp_all add: progress_callback_def display_defs)

lemma updateTimer_unowned: "unowned stream (updateTimer s) = unowned stream s"
  by (rule unowned_same) (simp_all add: updateTimer_def Let_def split: option.split)

lemma startRecording_catch_unowned:
  "unowned stream (startRecording_catch s) = unowned stream s"
  by (rule unowned_same) (simp_all add: startRecording_catch_def showError_def)

lemma startRecording_resume_rejected_unowned:
  "unowned stream (startRecording_resume (Rejected m) s) = unowned stream s"
  by (simp add: startRecording_resume_def startRecording_catch_unowned)

lemma startRecording_resume_unowned:
  assumes "unowned stream s" and "new \<noteq> stream"
  shows "unowned stream (startRecording_resume (Fulfilled new) s)"
proof (cases "''audio/webm'' \<in> set (supported_mimeTypes s)")
  case False
  then show ?thesis
    using assms(1)
    by (simp add: startRecording_resume_def new_MediaRecorder_def startRecording_catch_unowned)
next
  case True
  have "streams (startRecording_resume (Fulfilled new) s) = streams s"
    and "map rec_stream (recorders (startRecording_resume (Fulfilled new) s))
           = map rec_stream (recorders s) @ [new]"
    and "pending (startRecording_resume (Fulfilled new) s) = pending s"
    using True
    by (simp_all add: startRecording_resume_def new_MediaRecorder_def recorder_start_def
        updateStatus_def updateTimer_def setInterval_def setTimeout_def Let_def
        split: option.split)
  with assms show ?thesis by (simp add: unowned_def)
qed

lemma onstop_unowned:
  assumes "unowned stream s" and "other \<noteq> stream"
  shows "unowned stream (register (onstop other s))"
proof (cases "transcriber s")
  case None
  have "streams (fst (onstop other s)) = (streams s)[other := False]"
    and "recorders (fst (onstop other s)) = recorders s"
    and "pending (fst (onstop other s)) = pending s"
    and "snd (onstop other s) = Returned"
    using None
    by (simp_all add: onstop_def processAudio_def processAudio_catch_def onstop_resume_def
        stop_tracks_def display_defs Let_def)
  with assms show ?thesis
    by (cases "onstop other s") (simp add: register_def unowned_def nth_list_update)
next
  case (Some c)
  have "streams (fst (onstop other s)) = streams s"
    and "recorders (fst (onstop other s)) = recorders s"
    and "pending (fst (onstop other s)) = pending s"
    and "snd (onstop other s) = Suspended [In_processAudio, In_onstop other]"
    using Some
    by (simp_all add: onstop_def processAudio_def display_defs Let_def)
  with assms show ?thesis
    by (cases "onstop other s") (simp add: register_def unowned_def)
qed

lemma step_unowned:
  assumes u: "unowned stream s"
  shows "unowned stream (step e s)"
proof (cases e)
  case Click_recordButton
  with u show ?thesis by (simp add: step_def toggleRecording_unowned)
next
  case Click_copyButton
  with u show ?thesis by (simp add: step_def copyToClipboard_unowned)
next
  case (Change_modelSelect v)
  from u have "unowned stream (s\<lparr>modelSelect_value := v\<rparr>)" by (simp add: unowned_def)
  with Change_modelSelect show ?thesis by (simp add: step_def onModelChange_unowned)
next
  case (Change_languageSelect v)
  with u show ?thesis by (simp add: step_def unowned_def)
next
  case Click_themeToggle
  with u show ?thesis
    by (simp add: step_def toggleTheme_def updateThemeIcon_def unowned_def Let_def)
next
  case (Pipeline_progress i st n)
  with u show ?thesis
    by (simp add: step_def progress_callback_unowned split: list.split frame.split)
next
  case (Pipeline_settled i p)
  show ?thesis
  proof (cases "pending_task i s")
    case Nil
    with u Pipeline_settled show ?thesis by (simp add: step_def)
  next
    case (Cons f k)
    from pending_task_unowned [OF u, of i] Cons have k: "In_onstop stream \<notin> set k" by simp
    from u have "unowned stream (take_pending i s)" by (rule take_pending_unowned)
    with k u Pipeline_settled Cons show ?thesis
      by (cases f) (simp_all add: step_def resume_callers_unowned initializeModel_resume_unowned)
  qed
next
  case (GetUserMedia_settled i p)
  show ?thesis
  proof (cases "pending_task i s")
    case Nil
    with u GetUserMedia_settled show ?thesis by (simp add: step_def)
  next
    case (Cons f k)
    from pending_task_unowned [OF u, of i] Cons have k: "In_onstop stream \<notin> set k" by simp
    from u have t: "unowned stream (take_pending i s)" by (rule take_pending_unowned)
    then have lt: "stream < length (streams (take_pending i s))" by (simp add: unowned_def)
    from t have "unowned stream ((take_pending i s)
        \<lparr>streams := streams (take_pending i s) @ [True]\<rparr>)"
      by (simp add: unowned_def nth_append)
    with lt have "unowned stream
        (startRecording_resume (Fulfilled (length (streams (take_pending i s))))
           ((take_pending i s)\<lparr>streams := streams (take_pending i s) @ [True]\<rparr>))"
      by (intro startRecording_resume_unowned) simp_all
    with t k u GetUserMedia_settled Cons show ?thesis
      by (cases f; cases p)
         (simp_all add: step_def Let_def resume_callers_unowned
            startRecording_resume_rejected_unowned)
  qed
next
  case (Transcriber_settled i p)
  show ?thesis
  proof (cases "pending_task i s")
    case Nil
    with u Transcriber_settled show ?thesis by (simp add: step_def)
  next
    case (Cons f k)
    from pending_task_unowned [OF u, of i] Cons have k: "In_onstop stream \<notin> set k" by simp
    from u have "unowned stream (take_pending i s)" by (rule take_pending_unowned)
    with k u Transcriber_settled Cons show ?thesis
      by (cases f) (simp_all add: step_def resume_callers_unowned processAudio_resume_unowned)
  qed
next
  case (WriteText_settled i p)
  show ?thesis
  proof (cases "pending_task i s")
    case Nil
    with u WriteText_settled show ?thesis by (simp add: step_def)
  next
    case (Cons f k)
    from pending_task_unowned [OF u, of i] Cons have k: "In_onstop stream \<notin> set k" by simp
    from u have "unowned stream (take_pending i s)" by (rule take_pending_unowned)
    with k u WriteText_settled Cons show ?thesis
      by (cases f)
         (simp_all add: step_def resume_callers_unowned copyToClipboard_resume_unowned)
  qed
next
  case (Recorder_dataavailable r data)
  with u show ?thesis by (simp add: step_def ondataavailable_def unowned_def)
next
  case (Recorder_stop r)
  show ?thesis
  proof (cases "r < length (recorders s) \<and> rec_stop_queued (recorders s ! r)")
    case False
    with u Recorder_stop show ?thesis by (auto simp add: step_def)
  next
    case True
    from u True have other: "rec_stream (recorders s ! r) \<noteq> stream"
      by (auto simp add: unowned_def)
    from u have "unowned stream
        (s\<lparr>recorders := (recorders s)[r := (recorders s ! r)\<lparr>rec_stop_queued := False\<rparr>]\<rparr>)"
      by (simp add: unowned_def rec_stream_update_queued)
    from onstop_unowned [OF this other] True Recorder_stop show ?thesis
      by (simp add: step_def)
  qed
next
  case (Interval_tick i)
  with u show ?thesis by (simp add: step_def updateTimer_unowned)
next
  case (Time_passes d)
  with u show ?thesis by (simp add: step_def advance_to_unowned)
qed

lemma run_unowned: "unowned stream s \<Longrightarrow> unowned stream (run es s)"
proof (induction es arbitrary: s)
  case Nil
  then show ?case by (simp add: run_def)
next
  case (Cons e es)
  from Cons.IH [OF step_unowned [OF Cons.prems]] show ?case by (simp add: run_def)
qed

text \<open>
  So the stream delivered to the refused recording is never released, whatever the
  user and the browser do afterwards.
\<close>

lemma refused_stream_never_released:
  "0 < length (streams (run es refused_page)) \<and> streams (run es refused_page) ! 0"
proof -
  have "unowned 0 refused_page"
    by (simp add: unowned_def refused_page_def no_webm_page_def example_page_def eval_defs
        cong: let_weak_cong)
  then have "unowned 0 (run es refused_page)" by (rule run_unowned)
  then show ?thesis by (simp add: unowned_def)
qed

section \<open>The loading flag and the load in flight\<close>

text \<open>
  On a page that starts with nothing awaited, \<^verbatim>\<open>this.isModelLoading\<close> is set
  exactly while a load started by \<^verbatim>\<open>onModelChange\<close> has not settled, and there is
  at most one such load.
\<close>

lemma flag_tracks_change_same:
  assumes "pending s' = pending s" and "isModelLoading s' = isModelLoading s"
  shows "flag_tracks_change s' = flag_tracks_change s"
  using assms by (simp add: flag_tracks_change_def changes_in_flight_def)

lemma register_tracks:
  assumes "flag_tracks_change s" and "\<And>k. c = Suspended k \<Longrightarrow> In_onModelChange \<notin> set k"
  shows "flag_tracks_change (register (s, c))"
  using assms
  by (cases c) (simp_all add: register_def flag_tracks_change_def changes_in_flight_def)

lemma filter_without_nth:
  assumes "i < length xs"
  shows "length (filter P (take i xs @ drop (Suc i) xs)) =
         length (filter P xs) - (if P (xs ! i) then 1 else 0)"
proof -
  from assms have "xs = take i xs @ xs ! i # drop (Suc i) xs"
    by (rule id_take_nth_drop)
  then have "length (filter P xs) =
      length (filter P (take i xs @ xs ! i # drop (Suc i) xs))" by simp
  then show ?thesis by simp
qed

lemma resume_callers_pending: "pending (resume_callers k s) = pending s"
  by (induction k s rule: resume_callers.induct)
     (simp_all add: onModelChange_resume_def onstop_resume_def stop_tracks_def)

lemma resume_callers_flag:
  "isModelLoading (resume_callers k s) =
     (if In_onModelChange \<in> set k then False else isModelLoading s)"
  by (induction k s rule: resume_callers.induct)
     (simp_all add: onModelChange_resume_def onstop_resume_def stop_tracks_def)

text \<open>
  A task settles: it is taken from the pending ones, its innermost method runs on
  (changing neither the flag nor what is pending), and its callers are resumed.
\<close>

lemma settle_tracks:
  assumes inv: "flag_tracks_change s"
    and task: "pending_task i s = f # k" and f: "f \<noteq> In_onModelChange"
    and p: "pending s' = pending (take_pending i s)"
    and l: "isModelLoading s' = isModelLoading s"
  shows "flag_tracks_change (resume_callers k s')"
proof -
  from task have i: "i < length (pending s)" and nth: "pending s ! i = f # k"
    by (simp_all add: pending_task_def split: if_splits)
  have count: "changes_in_flight (resume_callers k s') =
      changes_in_flight s - (if In_onModelChange \<in> set k then 1 else 0)"
    using f nth filter_without_nth [OF i, of "\<lambda>k. In_onModelChange \<in> set k"]
    by (simp add: changes_in_flight_def resume_callers_pending p take_pending_def)
  show ?thesis
  proof (cases "In_onModelChange \<in> set k")
    case True
    from i nth have "f # k \<in> set (pending s)" by (metis nth_mem)
    moreover from True have "In_onModelChange \<in> set (f # k)" by simp
    ultimately have "\<exists>t\<in>set (pending s). In_onModelChange \<in> set t" by blast
    then have "filter (\<lambda>k. In_onModelChange \<in> set k) (pending s) \<noteq> []"
      by (simp add: filter_empty_conv)
    then have "0 < changes_in_flight s" by (simp add: changes_in_flight_def)
    with inv have "changes_in_flight s = 1"
      by (simp add: flag_tracks_change_def split: if_splits)
    with True count show ?thesis
      by (simp add: flag_tracks_change_def resume_callers_flag)
  next
    case False
    with count inv l show ?thesis
      by (simp add: flag_tracks_change_def resume_callers_flag)
  qed
qed

lemma stopRecording_tracks:
  "flag_tracks_change (fst (stopRecording s)) = flag_tracks_change s"
  by (rule flag_tracks_change_same)
     (simp_all add: stopRecording_def recorder_stop_def clearInterval_def updateStatus_def
        Let_def split: option.split)

lemma run_timeout_tracks: "flag_tracks_change (run_timeout cb s) = flag_tracks_change s"
proof (cases cb)
  case AutoStop
  then show ?thesis by (simp add: run_timeout_def stopRecording_tracks)
next
  case (RestoreCopyButton originalText)
  have "flag_tracks_change (s\<lparr>copyButton_span := originalText, copyButton_copied := False\<rparr>)
      = flag_tracks_change s"
    by (rule flag_tracks_change_same) simp_all
  with RestoreCopyButton show ?thesis by (simp add: run_timeout_def)
qed

lemma flag_tracks_change_timers:
  "flag_tracks_change (s\<lparr>clock := c, timeouts := ts\<rparr>) = flag_tracks_change s"
  "flag_tracks_change (s\<lparr>clock := c\<rparr>) = flag_tracks_change s"
  by (simp_all add: flag_tracks_change_def changes_in_flight_def)

lemma fire_timeouts_tracks:
  "flag_tracks_change (fire_timeouts ts s) = flag_tracks_change s"
proof (induction ts arbitrary: s)
  case Nil
  show ?case by simp
next
  case (Cons t ts)
  obtain due cb where t: "t = (due, cb)" by (cases t)
  show ?case
    by (simp add: t Cons.IH run_timeout_tracks flag_tracks_change_timers)
qed

lemma startRecording_tracks:
  "flag_tracks_change (fst (startRecording s)) = flag_tracks_change s"
  by (rule flag_tracks_change_same)
     (simp_all add: startRecording_def showError_def hideError_def Let_def)

lemma toggleRecording_tracks:
  assumes "flag_tracks_change s"
  shows "flag_tracks_change (register (toggleRecording s))"
proof -
  have "flag_tracks_change (register (fst (toggleRecording s), snd (toggleRecording s)))"
  proof (rule register_tracks)
    show "flag_tracks_change (fst (toggleRecording s))"
      using assms by (simp add: toggleRecording_def startRecording_tracks stopRecording_tracks)
  next
    fix k assume "snd (toggleRecording s) = Suspended k"
    then show "In_onModelChange \<notin> set k"
      using startRecording_suspends [of s k] stopRecording_returns [of s k]
      by (auto simp add: toggleRecording_def split: if_splits)
  qed
  then show ?thesis by simp
qed

lemma copyToClipboard_tracks:
  "flag_tracks_change s \<Longrightarrow> flag_tracks_change (register (copyToClipboard s))"
  by (auto simp add: copyToClipboard_def register_def flag_tracks_change_def
      changes_in_flight_def Let_def split: if_splits)

lemma onModelChange_tracks:
  "flag_tracks_change s \<Longrightarrow> flag_tracks_change (register (onModelChange s))"
  by (auto simp add: onModelChange_def initializeModel_def updateStatus_def showProgress_def
      register_def flag_tracks_change_def changes_in_flight_def Let_def split: if_splits)

lemma onstop_tracks:
  assumes "flag_tracks_change s"
  shows "flag_tracks_change (register (onstop other s))"
proof (cases "transcriber s")
  case None
  then have "pending (fst (onstop other s)) = pending s"
    and "isModelLoading (fst (onstop other s)) = isModelLoading s"
    and "snd (onstop other s) = Returned"
    by (simp_all add: onstop_def processAudio_def processAudio_catch_def onstop_resume_def
        stop_tracks_def display_defs Let_def)
  with assms show ?thesis
    by (cases "onstop other s")
       (simp add: register_def flag_tracks_change_def changes_in_flight_def)
next
  case (Some c)
  then have "pending (fst (onstop other s)) = pending s"
    and "isModelLoading (fst (onstop other s)) = isModelLoading s"
    and "snd (onstop other s) = Suspended [In_processAudio, In_onstop other]"
    by (simp_all add: onstop_def processAudio_def display_defs Let_def)
  with assms show ?thesis
    by (cases "onstop other s")
       (simp add: register_def flag_tracks_change_def changes_in_flight_def)
qed

lemma startRecording_resume_tracks:
  "pending (startRecording_resume p s) = pending s
   \<and> isModelLoading (startRecording_resume p s) = isModelLoading s"
  by (simp add: startRecording_resume_def startRecording_catch_def showError_def
      new_MediaRecorder_def recorder_start_def updateStatus_def updateTimer_def
      setInterval_def setTimeout_def Let_def split: promise.split option.split)

lemma step_tracks:
  assumes inv: "flag_tracks_change s"
  shows "flag_tracks_change (step e s)"
proof (cases e)
  case Click_recordButton
  with inv show ?thesis by (simp add: step_def toggleRecording_tracks)
next
  case Click_copyButton
  with inv show ?thesis by (simp add: step_def copyToClipboard_tracks)
next
  case (Change_modelSelect v)
  have "flag_tracks_change (s\<lparr>modelSelect_value := v\<rparr>) = flag_tracks_change s"
    by (rule flag_tracks_change_same) simp_all
  with inv Change_modelSelect show ?thesis by (simp add: step_def onModelChange_tracks)
next
  case (Change_languageSelect v)
  have "flag_tracks_change (s\<lparr>languageSelect_value := v\<rparr>) = flag_tracks_change s"
    by (rule flag_tracks_change_same) simp_all
  with inv Change_languageSelect show ?thesis by (simp add: step_def)
next
  case Click_themeToggle
  have "flag_tracks_change (toggleTheme s) = flag_tracks_change s"
    by (rule flag_tracks_change_same)
       (simp_all add: toggleTheme_def updateThemeIcon_def Let_def)
  with inv Click_themeToggle show ?thesis by (simp add: step_def)
next
  case (Pipeline_progress i st n)
  have "flag_tracks_change (progress_callback m st n s) = flag_tracks_change s" for m
    by (rule flag_tracks_change_same) (simp_all add: progress_callback_def display_defs)
  with inv Pipeline_progress show ?thesis
    by (simp add: step_def split: list.split frame.split)
next
  case (Pipeline_settled i p)
  show ?thesis
  proof (cases "pending_task i s")
    case Nil
    with inv Pipeline_settled show ?thesis by (simp add: step_def)
  next
    case (Cons f k)
    show ?thesis
    proof (cases f)
      case (In_initializeModel m)
      have "flag_tracks_change (resume_callers k (initializeModel_resume q (take_pending i s)))"
        for q
        using inv Cons
        by (rule settle_tracks)
           (simp_all add: In_initializeModel initializeModel_resume_def display_defs
              take_pending_def split: promise.split)
      with Pipeline_settled Cons In_initializeModel show ?thesis by (simp add: step_def)
    qed (use inv Pipeline_settled Cons in \<open>simp_all add: step_def\<close>)
  qed
next
  case (GetUserMedia_settled i p)
  show ?thesis
  proof (cases "pending_task i s")
    case Nil
    with inv GetUserMedia_settled show ?thesis by (simp add: step_def)
  next
    case (Cons f k)
    show ?thesis
    proof (cases f)
      case In_startRecording
      have "flag_tracks_change (resume_callers k (startRecording_resume q
          ((take_pending i s)\<lparr>streams := z\<rparr>)))" for q z
        using inv Cons
        by (rule settle_tracks)
           (simp_all add: In_startRecording startRecording_resume_tracks take_pending_def)
      moreover have "flag_tracks_change (resume_callers k (startRecording_resume q
          (take_pending i s)))" for q
        using inv Cons
        by (rule settle_tracks)
           (simp_all add: In_startRecording startRecording_resume_tracks take_pending_def)
      ultimately show ?thesis
        using GetUserMedia_settled Cons In_startRecording
        by (cases p) (simp_all add: step_def Let_def)
    qed (use inv GetUserMedia_settled Cons in \<open>simp_all add: step_def\<close>)
  qed
next
  case (Transcriber_settled i p)
  show ?thesis
  proof (cases "pending_task i s")
    case Nil
    with inv Transcriber_settled show ?thesis by (simp add: step_def)
  next
    case (Cons f k)
    show ?thesis
    proof (cases f)
      case In_processAudio
      have "flag_tracks_change (resume_callers k (processAudio_resume p (take_pending i s)))"
        using inv Cons
        by (rule settle_tracks)
           (simp_all add: In_processAudio processAudio_resume_def processAudio_catch_def
              display_defs take_pending_def Let_def split: promise.split)
      with Transcriber_settled Cons In_processAudio show ?thesis by (simp add: step_def)
    qed (use inv Transcriber_settled Cons in \<open>simp_all add: step_def\<close>)
  qed
next
  case (WriteText_settled i p)
  show ?thesis
  proof (cases "pending_task i s")
    case Nil
    with inv WriteText_settled show ?thesis by (simp add: step_def)
  next
    case (Cons f k)
    show ?thesis
    proof (cases f)
      case In_copyToClipboard
      have "flag_tracks_change (resume_callers k (copyToClipboard_resume p (take_pending i s)))"
        using inv Cons
        by (rule settle_tracks)
           (simp_all add: In_copyToClipboard copyToClipboard_resume_def setTimeout_def
              showError_def take_pending_def Let_def split: promise.split)
      with WriteText_settled Cons In_copyToClipboard show ?thesis by (simp add: step_def)
    qed (use inv WriteText_settled Cons in \<open>simp_all add: step_def\<close>)
  qed
next
  case (Recorder_dataavailable r data)
  have "flag_tracks_change (ondataavailable data s) = flag_tracks_change s"
    by (rule flag_tracks_change_same) (simp_all add: ondataavailable_def)
  with inv Recorder_dataavailable show ?thesis by (simp add: step_def)
next
  case (Recorder_stop r)
  have "flag_tracks_change (s\<lparr>recorders := rs\<rparr>) = flag_tracks_change s" for rs
    by (rule flag_tracks_change_same) simp_all
  with inv Recorder_stop show ?thesis by (simp add: step_def onstop_tracks)
next
  case (Interval_tick i)
  have "flag_tracks_change (updateTimer s) = flag_tracks_change s"
    by (rule flag_tracks_change_same) (simp_all add: updateTimer_def Let_def split: option.split)
  with inv Interval_tick show ?thesis by (simp add: step_def)
next
  case (Time_passes d)
  with inv show ?thesis
    by (simp add: step_def advance_to_def Let_def fire_timeouts_tracks
        flag_tracks_change_timers)
qed

lemma run_tracks: "flag_tracks_change s \<Longrightarrow> flag_tracks_change (run es s)"
proof (induction es arbitrary: s)
  case Nil
  then show ?case by (simp add: run_def)
next
  case (Cons e es)
  from Cons.IH [OF step_tracks [OF Cons.prems]] show ?case by (simp add: run_def)
qed

lemma flag_set_while_change_in_flight:
  assumes "pending page = []"
  shows "isModelLoading (run es (VoiceTranscriptionApp page)) =
         (In_onModelChange \<in> set (concat (pending (run es (VoiceTranscriptionApp page)))))"
    and "changes_in_flight (run es (VoiceTranscriptionApp page)) \<le> 1"
proof -
  have "flag_tracks_change (VoiceTranscriptionApp page)"
    using assms
    by (simp add: VoiceTranscriptionApp_def initializeTheme_def updateThemeIcon_def
        initializeModel_def updateStatus_def showProgress_def register_def
        flag_tracks_change_def changes_in_flight_def Let_def)
  then have inv: "flag_tracks_change (run es (VoiceTranscriptionApp page))"
    by (rule run_tracks)
  then show "changes_in_flight (run es (VoiceTranscriptionApp page)) \<le> 1"
    by (simp add: flag_tracks_change_def split: if_splits)
  have in_flight: "(0 < changes_in_flight s) = (In_onModelChange \<in> set (concat (pending s)))"
    for s
  proof -
    have "(filter (\<lambda>k. In_onModelChange \<in> set k) (pending s) \<noteq> []) =
        (In_onModelChange \<in> set (concat (pending s)))"
      by (auto simp add: filter_empty_conv)
    then show ?thesis by (simp add: changes_in_flight_def)
  qed
  from inv have "isModelLoading (run es (VoiceTranscriptionApp page)) =
      (0 < changes_in_flight (run es (VoiceTranscriptionApp page)))"
    by (simp add: flag_tracks_change_def split: if_splits)
  also have "\<dots> =
      (In_onModelChange \<in> set (concat (pending (run es (VoiceTranscriptionApp page)))))"
    by (rule in_flight)
  finally show "isModelLoading (run es (VoiceTranscriptionApp page)) =
      (In_onModelChange \<in> set (concat (pending (run es (VoiceTranscriptionApp page)))))" .
qed

section \<open>Every transcription call\<close>

text \<open>
  Whatever happens on the page, every call of the capability that the program has
  made carries the fixed options, and never the language \<^verbatim>\<open>auto\<close>: the calls
  come from \<^verbatim>\<open>processAudio\<close> alone.
\<close>

lemma calls_well_formed_same:
  "calls s' = calls s \<Longrightarrow> calls_well_formed s' = calls_well_formed s"
  by (simp add: calls_well_formed_def)

lemma register_calls: "calls (register sc) = calls (fst sc)"
  by (cases sc; cases "snd sc") (simp_all add: register_def)

lemma resume_callers_calls: "calls (resume_callers k s) = calls s"
  by (induction k s rule: resume_callers.induct)
     (simp_all add: onModelChange_resume_def onstop_resume_def stop_tracks_def)

lemma stopRecording_calls: "calls (fst (stopRecording s)) = calls s"
  by (simp add: stopRecording_def recorder_stop_def clearInterval_def updateStatus_def
      Let_def split: option.split)

lemma run_timeout_calls: "calls (run_timeout cb s) = calls s"
  by (cases cb) (simp_all add: run_timeout_def stopRecording_calls)

lemma fire_timeouts_calls: "calls (fire_timeouts ts s) = calls s"
proof (induction ts arbitrary: s)
  case Nil
  show ?case by simp
next
  case (Cons t ts)
  obtain due cb where t: "t = (due, cb)" by (cases t)
  show ?case by (simp add: t Cons.IH run_timeout_calls)
qed

lemma startRecording_calls:
  "calls (fst (startRecording s)) = calls s
   \<or> calls (fst (startRecording s)) = calls s @ [GetUserMedia]"
  by (simp add: startRecording_def showError_def hideError_def Let_def)

lemma onModelChange_calls:
  "calls (fst (onModelChange s)) = calls s
   \<or> calls (fst (onModelChange s)) =
       calls s @ [PipelineCall ''automatic-speech-recognition''
                    (getModelName (modelSelect_value s))]"
  by (simp add: onModelChange_def initializeModel_def updateStatus_def showProgress_def
      Let_def)

lemma copyToClipboard_calls:
  "calls (fst (copyToClipboard s)) = calls s
   \<or> calls (fst (copyToClipboard s)) = calls s @ [WriteText (transcriptionText_textContent s)]"
  by (simp add: copyToClipboard_def Let_def)

lemma processAudio_calls:
  "calls (fst (processAudio audio s)) = calls s
   \<or> (\<exists>c. calls (fst (processAudio audio s)) = calls s @ [c] \<and> fixed_options c)"
  by (cases "transcriber s")
     (simp_all add: processAudio_def processAudio_catch_def transcribe_call_options_def
        display_defs fixed_options_def Let_def)

lemma onstop_calls:
  "calls (fst (onstop other s)) = calls (fst (processAudio (concat (audioChunks s)) s))"
  by (cases "processAudio (concat (audioChunks s)) s";
      cases "snd (processAudio (concat (audioChunks s)) s)")
     (simp_all add: onstop_def onstop_resume_def stop_tracks_def Let_def)

lemma startRecording_resume_calls: "calls (startRecording_resume p s) = calls s"
  by (simp add: startRecording_resume_def startRecording_catch_def showError_def
      new_MediaRecorder_def recorder_start_def updateStatus_def updateTimer_def
      setInterval_def setTimeout_def Let_def split: promise.split option.split)

lemma toggleRecording_calls:
  "calls (fst (toggleRecording s)) = calls s
   \<or> calls (fst (toggleRecording s)) = calls s @ [GetUserMedia]"
  using startRecording_calls [of s] by (simp add: toggleRecording_def stopRecording_calls)

lemma step_calls:
  "calls (step e s) = calls s
   \<or> (\<exists>c. calls (step e s) = calls s @ [c] \<and> fixed_options c)"
proof (cases e)
  case Click_recordButton
  have "fixed_options GetUserMedia" by (simp add: fixed_options_def)
  with toggleRecording_calls [of s] show ?thesis
    by (auto simp add: Click_recordButton step_def register_calls)
next
  case Click_copyButton
  have "fixed_options (WriteText (transcriptionText_textContent s))"
    by (simp add: fixed_options_def)
  with copyToClipboard_calls [of s] show ?thesis
    by (auto simp add: Click_copyButton step_def register_calls)
next
  case (Change_modelSelect v)
  have "fixed_options (PipelineCall ''automatic-speech-recognition'' (getModelName v))"
    by (simp add: fixed_options_def)
  with onModelChange_calls [of "s\<lparr>modelSelect_value := v\<rparr>"] show ?thesis
    by (auto simp add: Change_modelSelect step_def register_calls)
next
  case (Change_languageSelect v)
  then show ?thesis by (simp add: step_def)
next
  case Click_themeToggle
  then show ?thesis by (simp add: step_def toggleTheme_def updateThemeIcon_def Let_def)
next
  case (Pipeline_progress i st n)
  then show ?thesis
    by (simp add: step_def progress_callback_def display_defs split: list.split frame.split)
next
  case (Pipeline_settled i p)
  then show ?thesis
    by (simp add: step_def resume_callers_calls initializeModel_resume_def display_defs
        take_pending_def split: list.split frame.split promise.split)
next
  case (GetUserMedia_settled i p)
  then show ?thesis
    by (simp add: step_def resume_callers_calls startRecording_resume_calls
        take_pending_def Let_def split: list.split frame.split promise.split)
next
  case (Transcriber_settled i p)
  then show ?thesis
    by (simp add: step_def resume_callers_calls processAudio_resume_def
        processAudio_catch_def display_defs take_pending_def Let_def
        split: list.split frame.split promise.split)
next
  case (WriteText_settled i p)
  then show ?thesis
    by (simp add: step_def resume_callers_calls copyToClipboard_resume_def setTimeout_def
        showError_def take_pending_def Let_def split: list.split frame.split promise.split)
next
  case (Recorder_dataavailable r data)
  then show ?thesis by (simp add: step_def ondataavailable_def)
next
  case (Recorder_stop r)
  show ?thesis
  proof (cases "r < length (recorders s) \<and> rec_stop_queued (recorders s ! r)")
    case False
    with Recorder_stop show ?thesis by (auto simp add: step_def)
  next
    case True
    let ?s = "s\<lparr>recorders := (recorders s)
                 [r := (recorders s ! r)\<lparr>rec_stop_queued := False\<rparr>]\<rparr>"
    have "calls (step e s) = calls (fst (processAudio (concat (audioChunks ?s)) ?s))"
      using True Recorder_stop by (simp add: step_def register_calls onstop_calls)
    with processAudio_calls [of "concat (audioChunks ?s)" ?s] show ?thesis by simp
  qed
next
  case (Interval_tick i)
  then show ?thesis by (simp add: step_def updateTimer_def Let_def split: option.split)
next
  case (Time_passes d)
  then show ?thesis by (simp add: step_def advance_to_def Let_def fire_timeouts_calls)
qed

lemma step_calls_well_formed:
  "calls_well_formed s \<Longrightarrow> calls_well_formed (step e s)"
  using step_calls [of e s] by (auto simp add: calls_well_formed_def)

lemma run_calls_well_formed:
  "calls_well_formed s \<Longrightarrow> calls_well_formed (run es s)"
proof (induction es arbitrary: s)
  case Nil
  then show ?case by (simp add: run_def)
next
  case (Cons e es)
  from Cons.IH [OF step_calls_well_formed [OF Cons.prems]] show ?case by (simp add: run_def)
qed

lemma every_transcribe_call_has_fixed_options:
  assumes "calls page = []"
    and "Transcribe cap audio opts \<in> set (calls (run es (VoiceTranscriptionApp page)))"
  shows "task opts = ''transcribe'' \<and> chunk_length_s opts = 30 \<and> stride_length_s opts = 5
    \<and> \<not> return_timestamps opts \<and> language opts \<noteq> Some ''auto''"
proof -
  have "calls_well_formed (VoiceTranscriptionApp page)"
    using assms(1)
    by (simp add: VoiceTranscriptionApp_def initializeTheme_def updateThemeIcon_def
        initializeModel_def updateStatus_def showProgress_def register_def
        calls_well_formed_def fixed_options_def Let_def)
  then have "calls_well_formed (run es (VoiceTranscriptionApp page))"
    by (rule run_calls_well_formed)
  with assms(2) have "fixed_options (Transcribe cap audio opts)"
    by (simp add: calls_well_formed_def list_all_iff)
  then show ?thesis by (simp add: fixed_options_def)
qed

end
